theory Spec2Isabelle
  imports Complex_Main
begin

section \<open>Python values shared by both modules\<close>

text \<open>
  A Python \<open>str\<close> is a sequence of Unicode code points, so it is modelled as a list of
  natural numbers (one per code point); \<open>len\<close> is \<open>length\<close> and a slice \<open>s[i:j]\<close> is
  \<open>take (j - i) (drop i s)\<close>. Fixed identifiers of the program (language tags, element
  kinds, dictionary keys) are HOL string literals. Python floats are modelled as reals:
  the program only compares them and divides two character counts.
  A private method \<open>_name\<close> of the source is called \<open>priv_name\<close> here.
\<close>

type_synonym pystr = "nat list"

definition str_of :: "string \<Rightarrow> pystr" where
  "str_of s = map of_char s"

text \<open>The code points for which \<open>str.isspace\<close> holds; \<open>str.strip()\<close> removes them at both ends.\<close>

definition isspace :: "nat \<Rightarrow> bool" where
  "isspace c \<longleftrightarrow>
     (9 \<le> c \<and> c \<le> 13) \<or> (28 \<le> c \<and> c \<le> 32) \<or> c = 133 \<or> c = 160 \<or> c = 5760 \<or>
     (8192 \<le> c \<and> c \<le> 8202) \<or> c = 8232 \<or> c = 8233 \<or> c = 8239 \<or> c = 8287 \<or> c = 12288"

definition strip :: "pystr \<Rightarrow> pystr" where
  "strip s = rev (dropWhile isspace (rev (dropWhile isspace s)))"

definition slice :: "'a list \<Rightarrow> nat \<Rightarrow> nat \<Rightarrow> 'a list" where
  "slice s i j = take (j - i) (drop i s)"

text \<open>\<open>range(0, stop, step)\<close> for a positive step: \<open>0, step, 2 * step, ...\<close> below \<open>stop\<close>.\<close>

definition range_step :: "nat \<Rightarrow> nat \<Rightarrow> nat list" where
  "range_step stop step = map (\<lambda>k. k * step) [0 ..< (stop + step - 1) div step]"

text \<open>\<open>sep.join(parts)\<close>.\<close>

fun join :: "pystr \<Rightarrow> pystr list \<Rightarrow> pystr" where
  "join sep [] = []"
| "join sep [x] = x"
| "join sep (x # y # ys) = x @ sep @ join sep (y # ys)"

text \<open>
  Exceptions are values. \<open>OSError\<close> stands for the errors of the operating system other
  than a missing file (a name that is too long, a directory that may not be traversed);
  \<open>LibraryError\<close> stands for any exception raised inside an external library (PyPDF2,
  python-pptx, EasyOCR, transformers, scikit-learn). The payload is \<open>str(e)\<close>.
\<close>

datatype exn =
    FileNotFoundError pystr
  | OSError pystr
  | ValueError pystr
  | TypeError pystr
  | PyException pystr
  | LibraryError pystr

fun exn_str :: "exn \<Rightarrow> pystr" where
  "exn_str (FileNotFoundError m) = m"
| "exn_str (OSError m) = m"
| "exn_str (ValueError m) = m"
| "exn_str (TypeError m) = m"
| "exn_str (PyException m) = m"
| "exn_str (LibraryError m) = m"

datatype pyval = VStr pystr | VInt int | VBool bool | VNum real

section \<open>document\_processor.py: the language classifier\<close>

text \<open>
  \<open>c.isascii() and c.isalpha()\<close>: the conjunction short-circuits, so \<open>isalpha\<close> is only asked
  about ASCII code points, where it holds for the 52 letters.
\<close>

definition isascii :: "nat \<Rightarrow> bool" where
  "isascii c \<longleftrightarrow> c < 128"

definition isalpha :: "nat \<Rightarrow> bool" where
  "isalpha c \<longleftrightarrow> (65 \<le> c \<and> c \<le> 90) \<or> (97 \<le> c \<and> c \<le> 122)"

text \<open>
  \<open>DocumentProcessor._detect_language\<close>. Each \<open>sum(1 for c in text if ...)\<close> is the sum of
  a list of ones. The shares \<open>n / total_chars\<close> are Python float divisions compared with the
  literal \<open>0.3\<close>; they are taken exactly here. (The correctly rounded quotient of two counts
  is above the double nearest to 0.3 exactly when the exact quotient is above 3/10, as long
  as the text has fewer than about \<open>6 * 10^15\<close> counted characters.)
\<close>

definition priv_detect_language :: "pystr \<Rightarrow> string" where
  "priv_detect_language text =
     (if text = [] then ''unknown''
      else
        let latin_chars = sum_list [1. c \<leftarrow> text, isascii c \<and> isalpha c];
            arabic_chars = sum_list [1. c \<leftarrow> text, 0x0600 \<le> c \<and> c \<le> 0x06FF];
            hindi_chars = sum_list [1. c \<leftarrow> text, 0x0900 \<le> c \<and> c \<le> 0x097F];
            chinese_chars = sum_list [1. c \<leftarrow> text, 0x4E00 \<le> c \<and> c \<le> 0x9FFF];
            total_chars = latin_chars + arabic_chars + hindi_chars + chinese_chars :: int
        in if total_chars = 0 then ''unknown''
           else if real_of_int arabic_chars / real_of_int total_chars > 0.3 then ''ar''
           else if real_of_int hindi_chars / real_of_int total_chars > 0.3 then ''hi''
           else if real_of_int chinese_chars / real_of_int total_chars > 0.3 then ''zh''
           else ''en'')"

text \<open>
  The classifier as the specification words it: count the characters of the four ranges,
  answer \<open>unknown\<close> for a counted total of 0, otherwise compare each range's share of the
  counted total with 0.3 in the order Arabic, Devanagari, CJK, and default to \<open>en\<close>.
\<close>

datatype script = Latin | Arabic | Devanagari | CJK

fun in_script :: "script \<Rightarrow> nat \<Rightarrow> bool" where
  "in_script Latin c \<longleftrightarrow> (65 \<le> c \<and> c \<le> 90) \<or> (97 \<le> c \<and> c \<le> 122)"
| "in_script Arabic c \<longleftrightarrow> 1536 \<le> c \<and> c \<le> 1791"
| "in_script Devanagari c \<longleftrightarrow> 2304 \<le> c \<and> c \<le> 2431"
| "in_script CJK c \<longleftrightarrow> 19968 \<le> c \<and> c \<le> 40959"

definition counted :: "script \<Rightarrow> pystr \<Rightarrow> nat" where
  "counted s text = length (filter (in_script s) text)"

definition counted_total :: "pystr \<Rightarrow> nat" where
  "counted_total text = counted Latin text + counted Arabic text + counted Devanagari text + counted CJK text"

definition share :: "script \<Rightarrow> pystr \<Rightarrow> real" where
  "share s text = real (counted s text) / real (counted_total text)"

definition classify_spec :: "pystr \<Rightarrow> string" where
  "classify_spec text =
     (if counted_total text = 0 then ''unknown''
      else if share Arabic text > 3 / 10 then ''ar''
      else if share Devanagari text > 3 / 10 then ''hi''
      else if share CJK text > 3 / 10 then ''zh''
      else ''en'')"

section \<open>document\_processor.py: data model\<close>

record DocumentElement =
  el_text :: pystr
  page_number :: nat
  element_type :: string
  bbox :: "real \<times> real \<times> real \<times> real"
  el_confidence :: real
  el_language :: "string option"
  font_info :: "(string \<times> pystr) list option"

record ProcessedDocument =
  filename :: pystr
  total_pages :: nat
  elements :: "DocumentElement list"
  summary :: "pystr option"
  doc_metadata :: "(string \<times> pyval) list"

section \<open>document\_processor.py: the file system and the format libraries\<close>

text \<open>
  \<open>process_document\<close> first turns its argument into a \<open>pathlib.Path\<close>. A path is given by
  its string and by its final component \<open>name\<close>; \<open>suffix\<close> is pathlib's: the part of the
  name from its last dot on, unless that dot is the first or the last character.
\<close>

record path =
  path_str :: pystr
  name :: pystr

definition rfind :: "pystr \<Rightarrow> nat \<Rightarrow> int" where
  "rfind s c =
     (if c \<in> set s then int (length s) - 1 - int (length (takeWhile (\<lambda>x. x \<noteq> c) (rev s)))
      else - 1)"

definition suffix :: "path \<Rightarrow> pystr" where
  "suffix p =
     (let nm = name p; i = rfind nm 46
      in if 0 < i \<and> i < int (length nm) - 1 then drop (nat i) nm else [])"

text \<open>
  \<open>str.lower\<close> on the ASCII letters. Outside ASCII only U+212A lowers to an ASCII letter
  (\<open>k\<close>), which no supported extension contains, so membership of the lowered suffix in
  the allow-list is not affected by leaving the other code points alone.
\<close>

definition lower :: "pystr \<Rightarrow> pystr" where
  "lower s = map (\<lambda>c. if 65 \<le> c \<and> c \<le> 90 then c + 32 else c) s"

text \<open>What PyPDF2 gives for a page: \<open>page.extract_text()\<close> returns a string or raises.\<close>

type_synonym pdf_page = "exn + pystr"

record docx_paragraph =
  par_text :: pystr
  style_name :: pystr

text \<open>A python-docx document: its paragraphs, and its tables as rows of cell texts.\<close>

record docx_document =
  paragraphs :: "docx_paragraph list"
  tables :: "pystr list list list"

text \<open>
  A python-pptx shape: \<open>shape_text\<close> is \<open>None\<close> when the shape has no attribute \<open>text\<close>;
  a geometry attribute is \<open>None\<close> when the shape does not define it.
\<close>

record pptx_shape =
  shape_text :: "pystr option"
  shape_left :: "int option"
  shape_top :: "int option"
  shape_width :: "int option"
  shape_height :: "int option"

text \<open>One EasyOCR result: the polygon \<open>result[0]\<close>, the text \<open>result[1]\<close>, the score \<open>result[2]\<close>.\<close>

record ocr_result =
  bbox_coords :: "(real \<times> real) list"
  ocr_text :: pystr
  ocr_confidence :: real

text \<open>
  Everything \<open>process_document\<close> asks of its environment: the file system
  (\<open>exists\<close>, \<open>stat().st_size\<close>), the readers of the format libraries (each may raise),
  \<open>cv2.imread\<close> (which returns \<open>None\<close> for a file it cannot decode), the OCR reader of the
  processor, and Unicode's \<open>str.isupper\<close>. \<open>Path.exists()\<close> answers \<open>True\<close> or \<open>False\<close>, or
  raises the error of the operating system when the path cannot be examined at all.
\<close>

record world =
  path_exists :: "path \<Rightarrow> exn + bool"
  st_size :: "path \<Rightarrow> exn + int"
  pdf_pages :: "path \<Rightarrow> exn + pdf_page list"
  docx_open :: "path \<Rightarrow> exn + docx_document"
  pptx_slides :: "path \<Rightarrow> exn + pptx_shape list list"
  imread_ok :: "path \<Rightarrow> bool"
  readtext :: "path \<Rightarrow> exn + ocr_result list"
  isupper :: "pystr \<Rightarrow> bool"

section \<open>document\_processor.py: the extractors\<close>

definition supported_formats :: "pystr set" where
  "supported_formats =
     {str_of ''.pdf'', str_of ''.docx'', str_of ''.pptx'', str_of ''.png'', str_of ''.jpg'',
      str_of ''.jpeg'', str_of ''.tiff'', str_of ''.bmp''}"

text \<open>\<open>s.split('\n\n')\<close>: the pieces of \<open>s\<close> between the occurrences of two line feeds, found from the left.\<close>

fun split_nn :: "pystr \<Rightarrow> pystr \<Rightarrow> pystr list" where
  "split_nn cur [] = [cur]"
| "split_nn cur [a] = [cur @ [a]]"
| "split_nn cur (a # b # rest) =
     (if a = 10 \<and> b = 10 then cur # split_nn [] rest else split_nn (cur @ [a]) (b # rest))"

text \<open>The body of the page loop of \<open>_process_pdf\<close> for one page whose text was extracted.\<close>

definition pdf_page_elements :: "nat \<Rightarrow> pystr \<Rightarrow> DocumentElement list" where
  "pdf_page_elements page_num text_content =
     (if strip text_content \<noteq> [] then
        let paragraphs = [strip p. p \<leftarrow> split_nn [] text_content, strip p \<noteq> []]
        in [\<lparr>el_text = paragraph,
             page_number = page_num,
             element_type = ''paragraph'',
             bbox = (0, real i * 50, 500, (real i + 1) * 50),
             el_confidence = 0.9,
             el_language = Some (priv_detect_language paragraph),
             font_info = None\<rparr>. (i, paragraph) \<leftarrow> enumerate 0 paragraphs]
      else [])"

text \<open>
  The page loop \<open>for page_num, page in enumerate(pdf_reader.pages, 1)\<close>. Nothing in the
  loop catches an exception of \<open>extract_text\<close>: it leaves the loop and the function.
\<close>

fun pdf_pages_loop :: "nat \<Rightarrow> pdf_page list \<Rightarrow> exn + DocumentElement list" where
  "pdf_pages_loop page_num [] = Inr []"
| "pdf_pages_loop page_num (page # pages) =
     (case page of
        Inl e \<Rightarrow> Inl e
      | Inr text_content \<Rightarrow>
          (case pdf_pages_loop (Suc page_num) pages of
             Inl e \<Rightarrow> Inl e
           | Inr els \<Rightarrow> Inr (pdf_page_elements page_num text_content @ els)))"

definition priv_process_pdf :: "world \<Rightarrow> path \<Rightarrow> exn + ProcessedDocument" where
  "priv_process_pdf w file_path =
     (case pdf_pages w file_path of
        Inl e \<Rightarrow> Inl e
      | Inr pages \<Rightarrow>
          (case pdf_pages_loop 1 pages of
             Inl e \<Rightarrow> Inl e
           | Inr els \<Rightarrow>
               (case st_size w file_path of
                  Inl e \<Rightarrow> Inl e
                | Inr sz \<Rightarrow>
                    Inr \<lparr>filename = name file_path,
                         total_pages = length pages,
                         elements = els,
                         summary = None,
                         doc_metadata = [(''file_type'', VStr (str_of ''pdf'')), (''size'', VInt sz)]\<rparr>)))"

definition startswith :: "pystr \<Rightarrow> pystr \<Rightarrow> bool" where
  "startswith s pre \<longleftrightarrow> take (length pre) s = pre"

definition docx_paragraph_elements :: "docx_paragraph list \<Rightarrow> DocumentElement list" where
  "docx_paragraph_elements ps =
     [\<lparr>el_text = par_text paragraph,
       page_number = 1,
       element_type = (if startswith (style_name paragraph) (str_of ''Heading'') then ''heading'' else ''paragraph''),
       bbox = (0, real para_idx * 30, 500, (real para_idx + 1) * 30),
       el_confidence = 1.0,
       el_language = Some (priv_detect_language (par_text paragraph)),
       font_info = Some [(''style'', style_name paragraph)]\<rparr>.
      (para_idx, paragraph) \<leftarrow> enumerate 0 ps, strip (par_text paragraph) \<noteq> []]"

text \<open>
  The table loop of \<open>_process_docx\<close>. Its guard is \<open>if table_text:\<close>, which asks whether the
  table has a row, not whether the joined text is blank.
\<close>

definition docx_table_elements :: "pystr list list list \<Rightarrow> DocumentElement list" where
  "docx_table_elements ts =
     concat
       [let table_text = [join (str_of '' | '') row_text. row_text \<leftarrow> table]
        in if table_text \<noteq> [] then
             [\<lparr>el_text = join [10] table_text,
               page_number = 1,
               element_type = ''table'',
               bbox = (0, 1000 + real table_idx * 100, 500, 1000 + (real table_idx + 1) * 100),
               el_confidence = 1.0,
               el_language = Some (priv_detect_language (join (str_of '' '') table_text)),
               font_info = None\<rparr>]
           else [].
        (table_idx, table) \<leftarrow> enumerate 0 ts]"

definition priv_process_docx :: "world \<Rightarrow> path \<Rightarrow> exn + ProcessedDocument" where
  "priv_process_docx w file_path =
     (case docx_open w file_path of
        Inl e \<Rightarrow> Inl e
      | Inr doc \<Rightarrow>
          (case st_size w file_path of
             Inl e \<Rightarrow> Inl e
           | Inr sz \<Rightarrow>
               Inr \<lparr>filename = name file_path,
                    total_pages = 1,
                    elements = docx_paragraph_elements (paragraphs doc) @ docx_table_elements (tables doc),
                    summary = None,
                    doc_metadata = [(''file_type'', VStr (str_of ''docx'')), (''size'', VInt sz)]\<rparr>))"

text \<open>
  \<open>a + b\<close> on two geometry attributes: Python raises \<open>TypeError\<close> when one of them is
  \<open>None\<close>, with a message that names the types of the two operands in single quotes.
\<close>

definition quoted :: "string \<Rightarrow> pystr" where
  "quoted s = [39] @ str_of s @ [39]"

definition operand_error :: "string \<Rightarrow> string \<Rightarrow> exn" where
  "operand_error a b =
     TypeError (str_of ''unsupported operand type(s) for +: '' @ quoted a @ str_of '' and '' @ quoted b)"

fun py_add :: "int option \<Rightarrow> int option \<Rightarrow> exn + int" where
  "py_add (Some a) (Some b) = Inr (a + b)"
| "py_add None (Some b) = Inl (operand_error ''NoneType'' ''int'')"
| "py_add (Some a) None = Inl (operand_error ''int'' ''NoneType'')"
| "py_add None None = Inl (operand_error ''NoneType'' ''NoneType'')"

text \<open>
  The body of the shape loop of \<open>_process_pptx\<close>: no element for a shape without text or
  with blank text, otherwise one element, whose bounding box needs the four geometry
  attributes.
\<close>

definition pptx_shape_elements :: "world \<Rightarrow> nat \<Rightarrow> pptx_shape \<Rightarrow> exn + DocumentElement list" where
  "pptx_shape_elements w slide_num shape =
     (case shape_text shape of
        None \<Rightarrow> Inr []
      | Some t \<Rightarrow>
          if strip t \<noteq> [] then
            (case py_add (shape_left shape) (shape_width shape) of
               Inl e \<Rightarrow> Inl e
             | Inr x2 \<Rightarrow>
                 (case py_add (shape_top shape) (shape_height shape) of
                    Inl e \<Rightarrow> Inl e
                  | Inr y2 \<Rightarrow>
                      Inr [\<lparr>el_text = t,
                            page_number = slide_num,
                            element_type = (if isupper w t \<or> length t < 50 then ''heading'' else ''paragraph''),
                            bbox = (real_of_int (the (shape_left shape)), real_of_int (the (shape_top shape)),
                                    real_of_int x2, real_of_int y2),
                            el_confidence = 1.0,
                            el_language = Some (priv_detect_language t),
                            font_info = None\<rparr>]))
          else Inr [])"

fun pptx_shapes_loop :: "world \<Rightarrow> nat \<Rightarrow> pptx_shape list \<Rightarrow> exn + DocumentElement list" where
  "pptx_shapes_loop w slide_num [] = Inr []"
| "pptx_shapes_loop w slide_num (shape # shapes) =
     (case pptx_shape_elements w slide_num shape of
        Inl e \<Rightarrow> Inl e
      | Inr els \<Rightarrow>
          (case pptx_shapes_loop w slide_num shapes of
             Inl e \<Rightarrow> Inl e
           | Inr later \<Rightarrow> Inr (els @ later)))"

fun pptx_slides_loop :: "world \<Rightarrow> nat \<Rightarrow> pptx_shape list list \<Rightarrow> exn + DocumentElement list" where
  "pptx_slides_loop w slide_num [] = Inr []"
| "pptx_slides_loop w slide_num (slide # slides) =
     (case pptx_shapes_loop w slide_num slide of
        Inl e \<Rightarrow> Inl e
      | Inr els \<Rightarrow>
          (case pptx_slides_loop w (Suc slide_num) slides of
             Inl e \<Rightarrow> Inl e
           | Inr later \<Rightarrow> Inr (els @ later)))"

definition priv_process_pptx :: "world \<Rightarrow> path \<Rightarrow> exn + ProcessedDocument" where
  "priv_process_pptx w file_path =
     (case pptx_slides w file_path of
        Inl e \<Rightarrow> Inl e
      | Inr slides \<Rightarrow>
          (case pptx_slides_loop w 1 slides of
             Inl e \<Rightarrow> Inl e
           | Inr els \<Rightarrow>
               (case st_size w file_path of
                  Inl e \<Rightarrow> Inl e
                | Inr sz \<Rightarrow>
                    Inr \<lparr>filename = name file_path,
                         total_pages = length slides,
                         elements = els,
                         summary = None,
                         doc_metadata = [(''file_type'', VStr (str_of ''pptx'')), (''size'', VInt sz)]\<rparr>)))"

text \<open>
  The body of the OCR loop of \<open>_process_image\<close>. \<open>min\<close> and \<open>max\<close> of an empty polygon
  raise \<open>ValueError\<close>.
\<close>

definition ocr_result_elements :: "ocr_result \<Rightarrow> exn + DocumentElement list" where
  "ocr_result_elements result =
     (let coords = bbox_coords result; t = ocr_text result; c = ocr_confidence result
      in if c > 0.5 \<and> strip t \<noteq> [] then
           let x_coords = map fst coords; y_coords = map snd coords
           in if coords = [] then Inl (ValueError (str_of ''min() arg is an empty sequence''))
              else
                Inr [\<lparr>el_text = t,
                      page_number = 1,
                      element_type = (if c < 0.8 then ''handwriting'' else ''text''),
                      bbox = (Min (set x_coords), Min (set y_coords), Max (set x_coords), Max (set y_coords)),
                      el_confidence = c,
                      el_language = Some (priv_detect_language t),
                      font_info = None\<rparr>]
         else Inr [])"

fun ocr_results_loop :: "ocr_result list \<Rightarrow> exn + DocumentElement list" where
  "ocr_results_loop [] = Inr []"
| "ocr_results_loop (result # results) =
     (case ocr_result_elements result of
        Inl e \<Rightarrow> Inl e
      | Inr els \<Rightarrow>
          (case ocr_results_loop results of
             Inl e \<Rightarrow> Inl e
           | Inr later \<Rightarrow> Inr (els @ later)))"

text \<open>
  \<open>_process_image\<close>. The optional layout pass that follows the OCR loop in the source
  discards its result and catches its own exceptions, so it does not appear here.
\<close>

definition priv_process_image :: "world \<Rightarrow> path \<Rightarrow> exn + ProcessedDocument" where
  "priv_process_image w file_path =
     (if \<not> imread_ok w file_path then
        Inl (ValueError (str_of ''Could not load image: '' @ path_str file_path))
      else
        (case readtext w file_path of
           Inl e \<Rightarrow> Inl e
         | Inr ocr_results \<Rightarrow>
             (case ocr_results_loop ocr_results of
                Inl e \<Rightarrow> Inl e
              | Inr els \<Rightarrow>
                  (case st_size w file_path of
                     Inl e \<Rightarrow> Inl e
                   | Inr sz \<Rightarrow>
                       Inr \<lparr>filename = name file_path,
                            total_pages = 1,
                            elements = els,
                            summary = None,
                            doc_metadata = [(''file_type'', VStr (str_of ''image'')), (''size'', VInt sz)]\<rparr>))))"

text \<open>
  \<open>process_document\<close>. The handler \<open>except Exception as e: log; raise\<close> around the body
  re-raises whatever it catches, so every error of the body, the one of \<open>exists()\<close>
  included, is the error of the call.
\<close>

definition process_document :: "world \<Rightarrow> path \<Rightarrow> exn + ProcessedDocument" where
  "process_document w file_path =
     (case path_exists w file_path of
        Inl e \<Rightarrow> Inl e
      | Inr found \<Rightarrow>
          if \<not> found then
            Inl (FileNotFoundError (str_of ''File not found: '' @ path_str file_path))
          else if lower (suffix file_path) \<notin> supported_formats then
            Inl (ValueError (str_of ''Unsupported format: '' @ suffix file_path))
          else if lower (suffix file_path) = str_of ''.pdf'' then priv_process_pdf w file_path
          else if lower (suffix file_path) = str_of ''.docx'' then priv_process_docx w file_path
          else if lower (suffix file_path) = str_of ''.pptx'' then priv_process_pptx w file_path
          else priv_process_image w file_path)"

section \<open>ai\_models.py: data model and inference primitives\<close>

record ModelResponse =
  content :: pystr
  confidence :: real
  metadata :: "(string \<times> pyval) list"
  processing_time :: real

text \<open>
  The inference primitives are the Hugging Face pipelines the manager holds. Each is a
  function of its arguments that returns the field the program reads from the result or
  raises: the summarizer gives \<open>result[0]['summary_text']\<close> for a text, a \<open>max_length\<close> and
  a \<open>min_length\<close> (sampling is switched off); the question answerer gives the \<open>answer\<close> and
  the \<open>score\<close> for a question and a context; the classifier gives \<open>result[0]['label']\<close> and
  \<open>result[0]['score']\<close>; the embedder encodes a list of texts.
\<close>

type_synonym summarizer_fn = "pystr \<Rightarrow> int \<Rightarrow> int \<Rightarrow> exn + pystr"

record qa_result =
  answer :: pystr
  score :: real

type_synonym qa_fn = "pystr \<Rightarrow> pystr \<Rightarrow> exn + qa_result"

type_synonym classifier_fn = "pystr \<Rightarrow> exn + pystr \<times> real"

type_synonym embedder_fn = "pystr list \<Rightarrow> exn + real list list"

type_synonym lang_detector_fn = "pystr \<Rightarrow> exn + pystr"

text \<open>
  The calls a function makes to a primitive are its observable effect, so each function
  below returns, beside its result, the list of the calls it made, in order.
\<close>

type_synonym summarizer_call = "pystr \<times> int \<times> int"

type_synonym qa_call = "pystr \<times> pystr"

record AIModelManager =
  embedding_model :: "embedder_fn option"
  summarizer :: "summarizer_fn option"
  qa_model :: "qa_fn option"
  classifier :: "classifier_fn option"
  lang_detector :: "lang_detector_fn option"
  models_loaded :: "(string \<times> bool) list"

text \<open>What each constructor call of \<open>_load_models\<close> does: it returns the model or raises.\<close>

record loaders =
  load_embedding :: "exn + embedder_fn"
  load_summarizer :: "exn + summarizer_fn"
  load_qa :: "exn + qa_fn"
  load_classifier :: "exn + classifier_fn"

text \<open>One \<open>try: self.m = load(); models_loaded[k] = True  except Exception: self.m = None\<close>.\<close>

definition try_load :: "exn + 'a \<Rightarrow> 'a option" where
  "try_load r = (case r of Inl e \<Rightarrow> None | Inr m \<Rightarrow> Some m)"

text \<open>
  \<open>AIModelManager._load_models\<close>. The language detector is switched off in the source:
  its block sets the model to \<open>None\<close> and the flag to \<open>False\<close> without loading anything.
\<close>

definition priv_load_models :: "loaders \<Rightarrow> exn + AIModelManager" where
  "priv_load_models l =
     (let em = try_load (load_embedding l);
          su = try_load (load_summarizer l);
          qa = try_load (load_qa l);
          cl = try_load (load_classifier l);
          loaded = [(''embedding'', em \<noteq> None), (''summarizer'', su \<noteq> None), (''qa'', qa \<noteq> None),
                    (''classifier'', cl \<noteq> None), (''lang_detector'', False)]
      in if \<not> the (map_of loaded ''embedding'') then
           Inl (PyException (str_of ''Essential embedding model could not be loaded''))
         else
           Inr \<lparr>embedding_model = em, summarizer = su, qa_model = qa, classifier = cl,
                lang_detector = None, models_loaded = loaded\<rparr>)"

section \<open>ai\_models.py: summarize\_text\<close>

text \<open>
  The chunk loop of \<open>summarize_text\<close>: every chunk is summarized with the targets divided
  by the number of chunks (\<open>//\<close> is floor division); an exception leaves the loop.
\<close>

fun summarize_chunks ::
  "summarizer_fn \<Rightarrow> int \<Rightarrow> int \<Rightarrow> int \<Rightarrow> pystr list \<Rightarrow> (exn + pystr list) \<times> summarizer_call list" where
  "summarize_chunks f max_length min_length n [] = (Inr [], [])"
| "summarize_chunks f max_length min_length n (chunk # rest) =
     (case f chunk (max_length div n) (min_length div n) of
        Inl e \<Rightarrow> (Inl e, [(chunk, max_length div n, min_length div n)])
      | Inr s \<Rightarrow>
          (case summarize_chunks f max_length min_length n rest of
             (Inl e, calls) \<Rightarrow> (Inl e, (chunk, max_length div n, min_length div n) # calls)
           | (Inr summaries, calls) \<Rightarrow>
               (Inr (s # summaries), (chunk, max_length div n, min_length div n) # calls)))"

definition text_chunks :: "nat \<Rightarrow> pystr \<Rightarrow> pystr list" where
  "text_chunks max_chunk_size text =
     [slice text i (i + max_chunk_size). i \<leftarrow> range_step (length text) max_chunk_size]"

text \<open>The body of the \<open>try\<close> block up to the assignment of \<open>summary\<close>.\<close>

definition summarize_body ::
  "summarizer_fn \<Rightarrow> pystr \<Rightarrow> int \<Rightarrow> int \<Rightarrow> (exn + pystr) \<times> summarizer_call list" where
  "summarize_body f text max_length min_length =
     (let max_chunk_size = 1000
      in if length text > max_chunk_size then
           let chunks = text_chunks max_chunk_size text
           in (case summarize_chunks f max_length min_length (int (length chunks)) chunks of
                 (Inl e, calls) \<Rightarrow> (Inl e, calls)
               | (Inr summaries, calls) \<Rightarrow>
                   let combined_summary = join (str_of '' '') summaries
                   in if int (length combined_summary) > max_length * 2 then
                        (f combined_summary max_length min_length,
                         calls @ [(combined_summary, max_length, min_length)])
                      else (Inr combined_summary, calls))
         else (f text max_length min_length, [(text, max_length, min_length)]))"

text \<open>
  The \<open>return ModelResponse(content=summary, confidence=0.8, ...)\<close> that ends the \<open>try\<close>
  block, after the chunked and the direct branch alike. \<open>elapsed\<close> is the reading
  \<open>time.time() - start_time\<close> taken when the response is built.
\<close>

definition summary_response :: "pystr \<Rightarrow> pystr \<Rightarrow> pystr \<Rightarrow> real \<Rightarrow> ModelResponse" where
  "summary_response s text language elapsed =
     \<lparr>content = s,
      confidence = 0.8,
      metadata = [(''language'', VStr language), (''original_length'', VInt (int (length text)))],
      processing_time = elapsed\<rparr>"

text \<open>\<open>AIModelManager.summarize_text\<close>.\<close>

definition summarize_text ::
  "AIModelManager \<Rightarrow> pystr \<Rightarrow> int \<Rightarrow> int \<Rightarrow> pystr \<Rightarrow> real \<Rightarrow> ModelResponse \<times> summarizer_call list" where
  "summarize_text self text max_length min_length language elapsed =
     (case summarizer self of
        None \<Rightarrow>
          (\<lparr>content = str_of ''Summary unavailable (model not loaded). Text preview: ''
                        @ slice text 0 200 @ str_of ''...'',
            confidence = 0.0,
            metadata = [(''fallback'', VBool True), (''language'', VStr language)],
            processing_time = elapsed\<rparr>, [])
      | Some f \<Rightarrow>
          (case summarize_body f text max_length min_length of
             (Inr s, calls) \<Rightarrow> (summary_response s text language elapsed, calls)
           | (Inl e, calls) \<Rightarrow>
               (\<lparr>content = str_of ''Error generating summary: '' @ exn_str e,
                 confidence = 0.0,
                 metadata = [(''error'', VStr (exn_str e))],
                 processing_time = elapsed\<rparr>, calls)))"

section \<open>ai\_models.py: answer\_question\<close>

text \<open>
  The window loop of \<open>answer_question\<close>, with its two variables \<open>best_answer\<close> and
  \<open>best_score\<close>: a result replaces the best one only when its score is strictly greater.
\<close>

fun qa_loop ::
  "qa_fn \<Rightarrow> pystr \<Rightarrow> pystr list \<Rightarrow> qa_result option \<times> real \<Rightarrow>
   (exn + qa_result option \<times> real) \<times> qa_call list" where
  "qa_loop f question [] best = (Inr best, [])"
| "qa_loop f question (chunk # rest) (best_answer, best_score) =
     (case f question chunk of
        Inl e \<Rightarrow> (Inl e, [(question, chunk)])
      | Inr result \<Rightarrow>
          (case qa_loop f question rest
                  (if score result > best_score then (Some result, score result)
                   else (best_answer, best_score)) of
             (r, calls) \<Rightarrow> (r, (question, chunk) # calls)))"

definition context_windows :: "nat \<Rightarrow> pystr \<Rightarrow> pystr list" where
  "context_windows max_context_length context =
     (let stride = max_context_length div 2
      in [slice context i (i + max_context_length). i \<leftarrow> range_step (length context) stride])"

text \<open>The body of the \<open>try\<close> block up to the assignment of \<open>answer\<close> and \<open>confidence\<close>.\<close>

definition answer_body :: "qa_fn \<Rightarrow> pystr \<Rightarrow> pystr \<Rightarrow> (exn + pystr \<times> real) \<times> qa_call list" where
  "answer_body f question context =
     (let max_context_length = 2000
      in if length context > max_context_length then
           (case qa_loop f question (context_windows max_context_length context) (None, 0) of
              (Inl e, calls) \<Rightarrow> (Inl e, calls)
            | (Inr (best_answer, best_score), calls) \<Rightarrow>
                (case best_answer of
                   Some b \<Rightarrow> (Inr (answer b, best_score), calls)
                 | None \<Rightarrow> (Inr (str_of ''No answer found'', 0.0), calls)))
         else
           (case f question context of
              Inl e \<Rightarrow> (Inl e, [(question, context)])
            | Inr result \<Rightarrow> (Inr (answer result, score result), [(question, context)])))"

text \<open>The \<open>return ModelResponse(content=answer, confidence=confidence, ...)\<close> that ends the \<open>try\<close> block.\<close>

definition answer_response :: "pystr \<Rightarrow> real \<Rightarrow> pystr \<Rightarrow> pystr \<Rightarrow> real \<Rightarrow> ModelResponse" where
  "answer_response a c question language elapsed =
     \<lparr>content = a,
      confidence = c,
      metadata = [(''question'', VStr question), (''language'', VStr language)],
      processing_time = elapsed\<rparr>"

definition answer_question ::
  "AIModelManager \<Rightarrow> pystr \<Rightarrow> pystr \<Rightarrow> pystr \<Rightarrow> real \<Rightarrow> ModelResponse \<times> qa_call list" where
  "answer_question self question context language elapsed =
     (case qa_model self of
        None \<Rightarrow>
          (\<lparr>content = str_of ''Question answering unavailable (model not loaded). Based on the context, here's relevant text: ''
                        @ slice context 0 300 @ str_of ''...'',
            confidence = 0.0,
            metadata = [(''fallback'', VBool True), (''question'', VStr question), (''language'', VStr language)],
            processing_time = elapsed\<rparr>, [])
      | Some f \<Rightarrow>
          (case answer_body f question context of
             (Inr (a, c), calls) \<Rightarrow> (answer_response a c question language elapsed, calls)
           | (Inl e, calls) \<Rightarrow>
               (\<lparr>content = str_of ''Error answering question: '' @ exn_str e,
                 confidence = 0.0,
                 metadata = [(''error'', VStr (exn_str e)), (''question'', VStr question)],
                 processing_time = elapsed\<rparr>, calls)))"

section \<open>ai\_models.py: analyze\_sentiment\<close>

text \<open>
  \<open>AIModelManager.analyze_sentiment\<close>. Calling the classifier when it is \<open>None\<close> raises
  \<open>TypeError\<close> inside the \<open>try\<close> block, which the handler turns into the error dictionary.
\<close>

definition sentiment_error :: "exn \<Rightarrow> (string \<times> pyval) list" where
  "sentiment_error e =
     [(''sentiment'', VStr (str_of ''neutral'')), (''confidence'', VNum 0.0),
      (''analysis'', VStr (str_of ''error'')), (''error'', VStr (exn_str e))]"

definition analyze_sentiment :: "AIModelManager \<Rightarrow> pystr \<Rightarrow> (string \<times> pyval) list \<times> pystr list" where
  "analyze_sentiment self text =
     (case classifier self of
        None \<Rightarrow> (sentiment_error (TypeError (str_of '''NoneType' object is not callable'')), [])
      | Some f \<Rightarrow>
          (case f (slice text 0 500) of
             Inl e \<Rightarrow> (sentiment_error e, [slice text 0 500])
           | Inr (label, sc) \<Rightarrow>
               ([(''sentiment'', VStr label), (''confidence'', VNum sc),
                 (''analysis'', VStr (str_of ''multilingual_sentiment''))],
                [slice text 0 500])))"

section \<open>ai\_models.py: extract\_key\_phrases\<close>

text \<open>
  \<open>re.split(r'[.!?]+', text)\<close>: the pieces of the text between the maximal runs of the
  three terminal punctuation marks, empty pieces at the ends included.
\<close>

definition is_terminal :: "nat \<Rightarrow> bool" where
  "is_terminal c \<longleftrightarrow> c = 46 \<or> c = 33 \<or> c = 63"

function re_split :: "pystr \<Rightarrow> pystr \<Rightarrow> pystr list" where
  "re_split cur [] = [cur]"
| "re_split cur (c # cs) =
     (if is_terminal c then cur # re_split [] (dropWhile is_terminal cs)
      else re_split (cur @ [c]) cs)"
  by pat_completeness auto
termination
  by (relation "measure (\<lambda>(cur, s). length s)") (auto simp: length_dropWhile_le less_Suc_eq_le)

text \<open>
  What \<open>TfidfVectorizer(...).fit_transform(sentences)\<close> yields when it does not raise: the
  feature names and the matrix, one row per sentence and one column per feature.
\<close>

record tfidf_fit =
  feature_names :: "pystr list"
  tfidf_matrix :: "nat \<Rightarrow> nat \<Rightarrow> real"

type_synonym vectorizer_fn = "pystr list \<Rightarrow> exn + tfidf_fit"

text \<open>\<open>np.mean(tfidf_matrix.toarray(), axis=0)\<close> for a matrix of \<open>n\<close> rows, in exact arithmetic.\<close>

definition mean_scores :: "tfidf_fit \<Rightarrow> nat \<Rightarrow> real list" where
  "mean_scores fit n =
     [(\<Sum>i\<leftarrow>[0..<n]. tfidf_matrix fit i j) / real n. j \<leftarrow> [0..<length (feature_names fit)]]"

text \<open>The slice \<open>xs[-k:]\<close>; for \<open>k = 0\<close> Python reads it as \<open>xs[0:]\<close>, the whole list.\<close>

definition last_k :: "int \<Rightarrow> 'a list \<Rightarrow> 'a list" where
  "last_k k xs = (if k > 0 then drop (length xs - nat k) xs else drop (nat (- k)) xs)"

text \<open>The variable \<open>sentences\<close>: the pieces that are not blank, each trimmed.\<close>

definition sentences_of :: "pystr \<Rightarrow> pystr list" where
  "sentences_of text = [strip s. s \<leftarrow> re_split [] text, strip s \<noteq> []]"

text \<open>
  \<open>AIModelManager.extract_key_phrases\<close>. \<open>sklearn\<close> is \<open>None\<close> when the import at the head
  of the \<open>try\<close> block fails; \<open>argsort\<close> is \<open>numpy.argsort\<close>. Every exception of the block
  (the import, the vectorizer, an index out of range) is caught and gives the empty list.
\<close>

definition extract_key_phrases ::
  "vectorizer_fn option \<Rightarrow> (real list \<Rightarrow> nat list) \<Rightarrow> pystr \<Rightarrow> int \<Rightarrow> pystr list" where
  "extract_key_phrases sklearn argsort text top_k =
     (case sklearn of
        None \<Rightarrow> []
      | Some fit_transform \<Rightarrow>
          let sentences = sentences_of text
          in if length sentences < 2 then (if text \<noteq> [] then [slice text 0 50] else [])
             else
               (case fit_transform sentences of
                  Inl e \<Rightarrow> []
                | Inr fit \<Rightarrow>
                    let ms = mean_scores fit (length sentences);
                        top_indices = rev (last_k top_k (argsort ms))
                    in if list_all (\<lambda>i. i < length ms) top_indices then
                         [feature_names fit ! i. i \<leftarrow> top_indices, ms ! i > 0]
                       else []))"

section \<open>Sample inputs\<close>

text \<open>
  Concrete files for the evaluations below: a world in which every path exists and every
  library finds an empty document, and variants of it with a given PDF, DOCX or image.
\<close>

definition file_named :: "string \<Rightarrow> path" where
  "file_named s = \<lparr>path_str = str_of s, name = str_of s\<rparr>"

definition blank_world :: world where
  "blank_world =
     \<lparr>path_exists = (\<lambda>p. Inr True),
      st_size = (\<lambda>p. Inr 0),
      pdf_pages = (\<lambda>p. Inr []),
      docx_open = (\<lambda>p. Inr \<lparr>paragraphs = [], tables = []\<rparr>),
      pptx_slides = (\<lambda>p. Inr []),
      imread_ok = (\<lambda>p. True),
      readtext = (\<lambda>p. Inr []),
      isupper = (\<lambda>s. False)\<rparr>"

definition pdf_world :: "pdf_page list \<Rightarrow> world" where
  "pdf_world pages = blank_world\<lparr>pdf_pages := (\<lambda>p. Inr pages)\<rparr>"

definition docx_world :: "docx_document \<Rightarrow> world" where
  "docx_world doc = blank_world\<lparr>docx_open := (\<lambda>p. Inr doc)\<rparr>"

definition ocr_world :: "ocr_result list \<Rightarrow> world" where
  "ocr_world rs = blank_world\<lparr>readtext := (\<lambda>p. Inr rs)\<rparr>"

definition scanned_note :: "ocr_result list" where
  "scanned_note =
     [\<lparr>bbox_coords = [(0, 0), (40, 0), (40, 12), (0, 12)], ocr_text = str_of ''Invoice'', ocr_confidence = 19 / 20\<rparr>,
      \<lparr>bbox_coords = [(0, 20), (40, 20), (40, 32), (0, 32)], ocr_text = str_of ''smudge'', ocr_confidence = 3 / 10\<rparr>,
      \<lparr>bbox_coords = [(0, 40), (30, 40), (30, 52), (0, 52)], ocr_text = str_of ''Total'', ocr_confidence = 7 / 10\<rparr>]"

definition sample_loaders :: loaders where
  "sample_loaders =
     \<lparr>load_embedding = Inr (\<lambda>texts. Inr (map (\<lambda>t. [real (length t)]) texts)),
      load_summarizer = Inl (LibraryError (str_of ''out of memory'')),
      load_qa = Inl (LibraryError (str_of ''model not found'')),
      load_classifier = Inr (\<lambda>s. Inr (str_of ''positive'', real (length s) / 1000))\<rparr>"

definition no_embedding_loaders :: loaders where
  "no_embedding_loaders = sample_loaders\<lparr>load_embedding := Inl (LibraryError (str_of ''no network''))\<rparr>"

definition sentiment_manager :: AIModelManager where
  "sentiment_manager = projr (priv_load_models sample_loaders)"

definition head_summarizer :: summarizer_fn where
  "head_summarizer s max_length min_length = Inr (take 100 s)"

definition summarizing_manager :: AIModelManager where
  "summarizing_manager =
     \<lparr>embedding_model = None, summarizer = Some head_summarizer, qa_model = None,
      classifier = None, lang_detector = None, models_loaded = []\<rparr>"

definition first_letter_qa :: qa_fn where
  "first_letter_qa question w =
     Inr \<lparr>answer = take 1 w, score = (if take 1 w = [99] then 0 else 1 / 2)\<rparr>"

definition silent_qa :: qa_fn where
  "silent_qa question w = Inr \<lparr>answer = [], score = 0\<rparr>"

definition qa_manager :: "qa_fn \<Rightarrow> AIModelManager" where
  "qa_manager f =
     \<lparr>embedding_model = None, summarizer = None, qa_model = Some f,
      classifier = None, lang_detector = None, models_loaded = []\<rparr>"

definition three_part_context :: pystr where
  "three_part_context = replicate 1000 97 @ replicate 1000 98 @ replicate 500 99"

definition failing_vectorizer :: vectorizer_fn where
  "failing_vectorizer sentences = Inl (ValueError (str_of ''empty vocabulary''))"

definition index_order :: "real list \<Rightarrow> nat list" where
  "index_order xs = [0..<length xs]"

definition sample_vectorizer :: vectorizer_fn where
  "sample_vectorizer sentences =
     Inr \<lparr>feature_names = [str_of ''cats'', str_of ''dogs'', str_of ''purr'', str_of ''bark''],
          tfidf_matrix = (\<lambda>i j. real j / 4)\<rparr>"

definition raising_qa :: qa_fn where
  "raising_qa question w = Inl (LibraryError (str_of ''CUDA out of memory''))"

definition intro_docx :: docx_document where
  "intro_docx =
     \<lparr>paragraphs = [\<lparr>par_text = str_of ''Intro'', style_name = str_of ''Heading 1''\<rparr>], tables = []\<rparr>"

section \<open>Properties of the language classifier\<close>

lemma sum_ones_filter:
  "sum_list [1. c \<leftarrow> s, P c] = int (length (filter P s))"
  by (induction s) simp_all

lemma counted_total_empty: "counted_total [] = 0"
  by (simp add: counted_total_def counted_def)

lemma isspace_not_counted: "isspace c \<Longrightarrow> \<not> in_script s c"
  by (cases s) (auto simp: isspace_def)

lemma counted_blank: "\<forall>c\<in>set text. isspace c \<Longrightarrow> counted s text = 0"
  by (simp add: counted_def isspace_not_counted)

lemma detect_language_refines:
  "priv_detect_language text = classify_spec text"
proof (cases "text = []")
  case True
  then show ?thesis
    by (simp add: priv_detect_language_def classify_spec_def counted_total_empty)
next
  case False
  have latin: "(\<lambda>c. isascii c \<and> isalpha c) = in_script Latin"
    by (auto simp: isascii_def isalpha_def fun_eq_iff)
  have arabic: "(\<lambda>c. 0x0600 \<le> c \<and> c \<le> 0x06FF) = in_script Arabic"
    by (simp add: fun_eq_iff)
  have hindi: "(\<lambda>c. 0x0900 \<le> c \<and> c \<le> 0x097F) = in_script Devanagari"
    by (simp add: fun_eq_iff)
  have chinese: "(\<lambda>c. 0x4E00 \<le> c \<and> c \<le> 0x9FFF) = in_script CJK"
    by (simp add: fun_eq_iff)
  have total: "int (counted Latin text) + int (counted Arabic text)
      + int (counted Devanagari text) + int (counted CJK text) = int (counted_total text)"
    by (simp add: counted_total_def)
  show ?thesis
    using False
    unfolding priv_detect_language_def classify_spec_def Let_def sum_ones_filter
      latin arabic hindi chinese share_def
    unfolding counted_def [symmetric] total
    by simp
qed

text \<open>
  C1. The language classifier is a function of its input string alone and computes exactly
  the specified algorithm: it counts the characters of the four ranges (ASCII letters,
  Arabic U+0600-U+06FF, Devanagari U+0900-U+097F, CJK U+4E00-U+9FFF), returns \<open>unknown\<close>
  when the counted total is 0, in particular for empty and for whitespace-only input, and
  otherwise returns \<open>ar\<close>, \<open>hi\<close>, \<open>zh\<close> for the first of the Arabic, Devanagari and CJK
  shares that exceeds 0.3, and \<open>en\<close> when none does.
\<close>

theorem detect_language_algorithm:
  "priv_detect_language text = classify_spec text
   \<and> (counted_total text = 0 \<longrightarrow> priv_detect_language text = ''unknown'')
   \<and> ((\<forall>c\<in>set text. isspace c) \<longrightarrow> priv_detect_language text = ''unknown'')
   \<and> (counted_total text \<noteq> 0 \<longrightarrow>
        priv_detect_language text =
          (if share Arabic text > 3 / 10 then ''ar''
           else if share Devanagari text > 3 / 10 then ''hi''
           else if share CJK text > 3 / 10 then ''zh''
           else ''en''))"
proof -
  have blank: "counted_total text = 0" if "\<forall>c\<in>set text. isspace c"
    using that by (simp add: counted_total_def counted_blank)
  show ?thesis
    unfolding detect_language_refines
    using blank by (simp add: classify_spec_def)
qed

theorem detect_language_algorithm_witness:
  "isspace 32 \<and> isspace 9 \<and> priv_detect_language [32, 9, 32] = ''unknown''
   \<and> counted_total [0x0627, 0x0628, 97, 98, 99] \<noteq> 0
   \<and> share Arabic [0x0627, 0x0628, 97, 98, 99] = 2 / 5
   \<and> priv_detect_language [0x0627, 0x0628, 97, 98, 99] = ''ar''"
proof -
  have blank: "\<forall>c\<in>set [32, 9, 32]. isspace c"
    by (simp add: isspace_def)
  have total: "counted_total [0x0627, 0x0628, 97, 98, 99] \<noteq> 0"
    by (simp add: counted_total_def counted_def)
  have arabic: "share Arabic [0x0627, 0x0628, 97, 98, 99] = 2 / 5"
    by (simp add: share_def counted_total_def counted_def)
  from detect_language_algorithm [of "[32, 9, 32]"] blank
  have 1: "priv_detect_language [32, 9, 32] = ''unknown''"
    by blast
  from detect_language_algorithm [of "[0x0627, 0x0628, 97, 98, 99]"] total
  have "priv_detect_language [0x0627, 0x0628, 97, 98, 99] =
      (if share Arabic [0x0627, 0x0628, 97, 98, 99] > 3 / 10 then ''ar''
       else if share Devanagari [0x0627, 0x0628, 97, 98, 99] > 3 / 10 then ''hi''
       else if share CJK [0x0627, 0x0628, 97, 98, 99] > 3 / 10 then ''zh''
       else ''en'')"
    by blast
  then have 2: "priv_detect_language [0x0627, 0x0628, 97, 98, 99] = ''ar''"
    unfolding arabic by simp
  show ?thesis
    using 1 2 total arabic by (simp add: isspace_def)
qed

section \<open>Properties of the extractors\<close>

lemma pdf_page_elements_confidence:
  "e \<in> set (pdf_page_elements n t) \<Longrightarrow> el_confidence e = 9 / 10"
  by (auto simp: pdf_page_elements_def Let_def split: if_splits)

lemma pdf_pages_loop_confidence:
  "pdf_pages_loop n pages = Inr els \<Longrightarrow> e \<in> set els \<Longrightarrow> el_confidence e = 9 / 10"
proof (induction pages arbitrary: n els)
  case Nil
  then show ?case by simp
next
  case (Cons page pages)
  from Cons.prems(1) obtain t later where
    later: "pdf_pages_loop (Suc n) pages = Inr later" and els: "els = pdf_page_elements n t @ later"
    by (auto split: sum.splits)
  from Cons.prems(2) els consider "e \<in> set (pdf_page_elements n t)" | "e \<in> set later"
    by auto
  then show ?case
  proof cases
    case 1
    then show ?thesis by (rule pdf_page_elements_confidence)
  next
    case 2
    with later show ?thesis by (rule Cons.IH)
  qed
qed

lemma pdf_pages_loop_aborts:
  "pdf_pages_loop n (map Inr texts @ Inl e # rest) = Inl e"
  by (induction texts arbitrary: n) simp_all

lemma docx_paragraph_confidence:
  "e \<in> set (docx_paragraph_elements ps) \<Longrightarrow> el_confidence e = 1"
  by (auto simp: docx_paragraph_elements_def split: if_splits)

lemma docx_table_confidence:
  "e \<in> set (docx_table_elements ts) \<Longrightarrow> el_confidence e = 1"
  by (auto simp: docx_table_elements_def Let_def split: if_splits)

lemma pptx_shape_confidence:
  "pptx_shape_elements w n s = Inr els \<Longrightarrow> e \<in> set els \<Longrightarrow> el_confidence e = 1"
  by (auto simp: pptx_shape_elements_def split: option.splits if_splits sum.splits)

lemma pptx_shapes_loop_confidence:
  "pptx_shapes_loop w n shapes = Inr els \<Longrightarrow> e \<in> set els \<Longrightarrow> el_confidence e = 1"
proof (induction shapes arbitrary: els)
  case Nil
  then show ?case by simp
next
  case (Cons s shapes)
  then show ?case
    by (auto split: sum.splits dest: pptx_shape_confidence)
qed

lemma pptx_slides_loop_confidence:
  "pptx_slides_loop w n slides = Inr els \<Longrightarrow> e \<in> set els \<Longrightarrow> el_confidence e = 1"
proof (induction slides arbitrary: n els)
  case Nil
  then show ?case by simp
next
  case (Cons s slides)
  then show ?case
    by (auto split: sum.splits dest: pptx_shapes_loop_confidence)
qed

lemma ocr_result_own:
  "ocr_result_elements r = Inr els \<Longrightarrow>
   map (\<lambda>e. (el_text e, el_confidence e)) els =
     map (\<lambda>r. (ocr_text r, ocr_confidence r))
       (filter (\<lambda>r. 1 / 2 < ocr_confidence r \<and> strip (ocr_text r) \<noteq> []) [r])"
  by (auto simp: ocr_result_elements_def Let_def split: if_splits)

lemma ocr_results_loop_own:
  "ocr_results_loop rs = Inr els \<Longrightarrow>
   map (\<lambda>e. (el_text e, el_confidence e)) els =
     map (\<lambda>r. (ocr_text r, ocr_confidence r))
       (filter (\<lambda>r. 1 / 2 < ocr_confidence r \<and> strip (ocr_text r) \<noteq> []) rs)"
proof (induction rs arbitrary: els)
  case Nil
  then show ?case by simp
next
  case (Cons r rs)
  from Cons.prems obtain first later where
    first: "ocr_result_elements r = Inr first" and later: "ocr_results_loop rs = Inr later"
    and els: "els = first @ later"
    by (auto split: sum.splits)
  have "filter (\<lambda>r. 1 / 2 < ocr_confidence r \<and> strip (ocr_text r) \<noteq> []) (r # rs)
      = filter (\<lambda>r. 1 / 2 < ocr_confidence r \<and> strip (ocr_text r) \<noteq> []) [r]
        @ filter (\<lambda>r. 1 / 2 < ocr_confidence r \<and> strip (ocr_text r) \<noteq> []) rs"
    by simp
  then show ?case
    unfolding els using ocr_result_own [OF first] Cons.IH [OF later]
    by (simp only: map_append)
qed

lemma pdf_pages_loop_all_decoded:
  "pdf_pages_loop n pages = Inr els \<Longrightarrow> \<forall>pg\<in>set pages. \<not> isl pg"
  by (induction pages arbitrary: n els) (auto split: sum.splits)

section \<open>Properties of process\_document\<close>

lemmas sample_defs = file_named_def blank_world_def pdf_world_def docx_world_def ocr_world_def

lemmas eval_defs = process_document_def suffix_def rfind_def str_of_def lower_def supported_formats_def

lemma process_document_returns:
  "process_document w p = Inr doc \<Longrightarrow>
   path_exists w p = Inr True \<and> lower (suffix p) \<in> supported_formats"
  by (auto simp: process_document_def split: sum.splits if_splits)

text \<open>
  C4. \<open>process_document\<close> is to fail with \<open>UnsupportedFormatError\<close> exactly for the
  extensions outside an allow-list that holds \<open>.pdf .docx .pptx .png .jpg .jpeg .tiff .bmp\<close>
  and the plain-text variants. The allow-list of the processor holds the eight
  extensions only: for an existing file \<open>notes.txt\<close> the call fails with the \<open>ValueError\<close>
  \<open>Unsupported format: .txt\<close>.
\<close>

theorem txt_rejected:
  "process_document blank_world (file_named ''notes.txt'')
     = Inl (ValueError (str_of ''Unsupported format: .txt''))"
  by (simp add: eval_defs sample_defs)

section \<open>Failures inside an extractor\<close>

text \<open>
  A PDF whose first page cannot be decoded and whose second page can: the call fails with
  the error of the first page, and the text of the second page is not extracted.
\<close>

theorem failing_page_aborts_document:
  "process_document
       (pdf_world [Inl (LibraryError (str_of ''cannot decode page 1'')), Inr (str_of ''text of page 2'')])
       (file_named ''report.pdf'')
     = Inl (LibraryError (str_of ''cannot decode page 1''))"
  by (simp add: eval_defs sample_defs priv_process_pdf_def)

text \<open>
  C5 (amended). During the extraction of a PDF a failure while decoding one page is not
  caught and no page is skipped: when \<open>extract_text\<close> raises on a page, \<open>process_document\<close>
  fails with the error of the first page that raises, whatever the other pages hold, and
  a document is returned only when every page was decoded.
\<close>

theorem unit_failure_propagates:
  "(path_exists w p = Inr True \<and> lower (suffix p) = str_of ''.pdf''
      \<and> pdf_pages w p = Inr (map Inr texts @ Inl e # rest)
      \<longrightarrow> process_document w p = Inl e)
   \<and> (lower (suffix p) = str_of ''.pdf'' \<and> pdf_pages w p = Inr pages
      \<and> process_document w p = Inr doc
      \<longrightarrow> (\<forall>pg\<in>set pages. \<not> isl pg))"
proof (intro conjI impI)
  assume a: "path_exists w p = Inr True \<and> lower (suffix p) = str_of ''.pdf''
      \<and> pdf_pages w p = Inr (map Inr texts @ Inl e # rest)"
  then have "process_document w p = priv_process_pdf w p"
    by (simp add: process_document_def supported_formats_def)
  also from a have "\<dots> = Inl e"
    by (simp add: priv_process_pdf_def pdf_pages_loop_aborts)
  finally show "process_document w p = Inl e" .
next
  assume a: "lower (suffix p) = str_of ''.pdf'' \<and> pdf_pages w p = Inr pages
      \<and> process_document w p = Inr doc"
  then have sfx: "lower (suffix p) = str_of ''.pdf''" and pages: "pdf_pages w p = Inr pages"
    and ok: "process_document w p = Inr doc"
    by simp_all
  from process_document_returns [OF ok]
  have "path_exists w p = Inr True" "lower (suffix p) \<in> supported_formats"
    by simp_all
  with sfx ok have "priv_process_pdf w p = Inr doc"
    by (simp add: process_document_def)
  with pages obtain els where "pdf_pages_loop 1 pages = Inr els"
    by (auto simp: priv_process_pdf_def split: sum.splits)
  then show "\<forall>pg\<in>set pages. \<not> isl pg"
    by (rule pdf_pages_loop_all_decoded)
qed

theorem unit_failure_propagates_witness:
  "process_document
       (pdf_world [Inr (str_of ''one''), Inl (LibraryError (str_of ''bad page'')), Inr (str_of ''three'')])
       (file_named ''scan.PDF'')
     = Inl (LibraryError (str_of ''bad page''))
   \<and> process_document (pdf_world [Inr (str_of ''one''), Inr (str_of ''two'')]) (file_named ''scan.PDF'')
     = Inr (projr (process_document (pdf_world [Inr (str_of ''one''), Inr (str_of ''two'')])
                    (file_named ''scan.PDF'')))
   \<and> list_all (\<lambda>pg. \<not> isl pg) [Inr (str_of ''one''), Inr (str_of ''two'') :: pdf_page]"
proof -
  let ?w = "pdf_world [Inr (str_of ''one''), Inl (LibraryError (str_of ''bad page'')), Inr (str_of ''three'')]"
  let ?v = "pdf_world [Inr (str_of ''one''), Inr (str_of ''two'')]"
  let ?p = "file_named ''scan.PDF''"
  have 1: "path_exists ?w ?p = Inr True \<and> lower (suffix ?p) = str_of ''.pdf''
      \<and> pdf_pages ?w ?p
          = Inr (map Inr [str_of ''one''] @ Inl (LibraryError (str_of ''bad page'')) # [Inr (str_of ''three'')])"
    by (simp add: sample_defs suffix_def rfind_def lower_def str_of_def)
  have 2: "lower (suffix ?p) = str_of ''.pdf''
      \<and> pdf_pages ?v ?p = Inr [Inr (str_of ''one''), Inr (str_of ''two'')]"
    by (simp add: sample_defs suffix_def rfind_def lower_def str_of_def)
  have "\<not> isl (process_document ?v ?p)"
    by (simp add: eval_defs sample_defs priv_process_pdf_def)
  then have 3: "process_document ?v ?p = Inr (projr (process_document ?v ?p))"
    by simp
  from 1 unit_failure_propagates [of ?w ?p "[str_of ''one'']"
      "LibraryError (str_of ''bad page'')" "[Inr (str_of ''three'')]"]
  have a: "process_document ?w ?p = Inl (LibraryError (str_of ''bad page''))"
    by blast
  from 2 3 unit_failure_propagates [where w = ?v and p = ?p
      and pages = "[Inr (str_of ''one''), Inr (str_of ''two'')]"
      and doc = "projr (process_document ?v ?p)"]
  have "\<forall>pg\<in>set [Inr (str_of ''one''), Inr (str_of ''two'') :: pdf_page]. \<not> isl pg"
    by blast
  then have b: "list_all (\<lambda>pg. \<not> isl pg) [Inr (str_of ''one''), Inr (str_of ''two'') :: pdf_page]"
    by (simp add: list_all_iff)
  from a 3 b show ?thesis by blast
qed

section \<open>Confidence and text of the elements\<close>

text \<open>A one-page PDF with the text \<open>hello\<close> gives one element, of confidence 0.9.\<close>

theorem pdf_confidence_is_not_one:
  "map_sum id (map el_confidence \<circ> elements)
       (process_document (pdf_world [Inr (str_of ''hello'')]) (file_named ''a.pdf''))
     = Inr [9 / 10]"
  by (simp add: eval_defs sample_defs priv_process_pdf_def pdf_page_elements_def strip_def isspace_def
      enumerate_eq_zip)

text \<open>
  C7 (amended). In a document returned by \<open>process_document\<close>, every element of a PDF has
  confidence exactly 0.9 and every element of a DOCX or PPTX has confidence exactly 1.0.
  The elements of an image are, in order, those of the OCR results whose score is above
  0.5 and whose text is not blank, and each carries the text and the score of its own
  result.
\<close>

theorem element_confidence_by_format:
  "process_document w p = Inr doc \<longrightarrow>
     (lower (suffix p) = str_of ''.pdf'' \<longrightarrow> (\<forall>e\<in>set (elements doc). el_confidence e = 9 / 10))
   \<and> (lower (suffix p) = str_of ''.docx'' \<or> lower (suffix p) = str_of ''.pptx'' \<longrightarrow>
        (\<forall>e\<in>set (elements doc). el_confidence e = 1))
   \<and> (lower (suffix p) \<noteq> str_of ''.pdf'' \<and> lower (suffix p) \<noteq> str_of ''.docx''
        \<and> lower (suffix p) \<noteq> str_of ''.pptx'' \<longrightarrow>
        (\<exists>rs. readtext w p = Inr rs \<and>
           map (\<lambda>e. (el_text e, el_confidence e)) (elements doc) =
             map (\<lambda>r. (ocr_text r, ocr_confidence r))
               (filter (\<lambda>r. 1 / 2 < ocr_confidence r \<and> strip (ocr_text r) \<noteq> []) rs)))"
proof (intro impI conjI)
  assume ok: "process_document w p = Inr doc"
  then have sup: "path_exists w p = Inr True" "lower (suffix p) \<in> supported_formats"
    using process_document_returns by blast+
  {
    assume f: "lower (suffix p) = str_of ''.pdf''"
    with ok sup have "priv_process_pdf w p = Inr doc"
      by (simp add: process_document_def)
    then obtain pages els where "pdf_pages_loop 1 pages = Inr els" "elements doc = els"
      by (auto simp: priv_process_pdf_def split: sum.splits)
    then show "\<forall>e\<in>set (elements doc). el_confidence e = 9 / 10"
      using pdf_pages_loop_confidence by blast
  }
  {
    assume f: "lower (suffix p) = str_of ''.docx'' \<or> lower (suffix p) = str_of ''.pptx''"
    then have npdf: "lower (suffix p) \<noteq> str_of ''.pdf''"
      by (auto simp: str_of_def)
    from f show "\<forall>e\<in>set (elements doc). el_confidence e = 1"
    proof
      assume d: "lower (suffix p) = str_of ''.docx''"
      with ok sup npdf have "priv_process_docx w p = Inr doc"
        by (simp add: process_document_def)
      then show ?thesis
        by (auto simp: priv_process_docx_def split: sum.splits
            dest: docx_paragraph_confidence docx_table_confidence)
    next
      assume d: "lower (suffix p) = str_of ''.pptx''"
      then have "lower (suffix p) \<noteq> str_of ''.docx''"
        by (auto simp: str_of_def)
      with d ok sup npdf have "priv_process_pptx w p = Inr doc"
        by (simp add: process_document_def)
      then obtain slides els where "pptx_slides_loop w 1 slides = Inr els" "elements doc = els"
        by (auto simp: priv_process_pptx_def split: sum.splits)
      then show ?thesis
        using pptx_slides_loop_confidence by blast
    qed
  }
  {
    assume f: "lower (suffix p) \<noteq> str_of ''.pdf'' \<and> lower (suffix p) \<noteq> str_of ''.docx''
        \<and> lower (suffix p) \<noteq> str_of ''.pptx''"
    with ok sup have "priv_process_image w p = Inr doc"
      by (simp add: process_document_def)
    then obtain rs els where rs: "readtext w p = Inr rs" "ocr_results_loop rs = Inr els" "elements doc = els"
      by (auto simp: priv_process_image_def split: sum.splits if_splits)
    from ocr_results_loop_own [OF rs(2)] rs(3)
    have "map (\<lambda>e. (el_text e, el_confidence e)) (elements doc) =
             map (\<lambda>r. (ocr_text r, ocr_confidence r))
               (filter (\<lambda>r. 1 / 2 < ocr_confidence r \<and> strip (ocr_text r) \<noteq> []) rs)"
      by simp
    with rs(1) show "\<exists>rs. readtext w p = Inr rs \<and>
           map (\<lambda>e. (el_text e, el_confidence e)) (elements doc) =
             map (\<lambda>r. (ocr_text r, ocr_confidence r))
               (filter (\<lambda>r. 1 / 2 < ocr_confidence r \<and> strip (ocr_text r) \<noteq> []) rs)"
      by blast
  }
qed

theorem element_confidence_by_format_witness:
  "process_document (pdf_world [Inr (str_of ''hello'')]) (file_named ''a.pdf'')
      = Inr (projr (process_document (pdf_world [Inr (str_of ''hello'')]) (file_named ''a.pdf'')))
   \<and> lower (suffix (file_named ''a.pdf'')) = str_of ''.pdf''
   \<and> elements (projr (process_document (pdf_world [Inr (str_of ''hello'')]) (file_named ''a.pdf''))) \<noteq> []
   \<and> el_confidence ` set (elements (projr (process_document (pdf_world [Inr (str_of ''hello'')]) (file_named ''a.pdf''))))
        \<subseteq> {9 / 10}
   \<and> process_document (docx_world intro_docx) (file_named ''a.docx'')
      = Inr (projr (process_document (docx_world intro_docx) (file_named ''a.docx'')))
   \<and> length (elements (projr (process_document (docx_world intro_docx) (file_named ''a.docx'')))) = 1
   \<and> el_confidence ` set (elements (projr (process_document (docx_world intro_docx) (file_named ''a.docx''))))
        \<subseteq> {1}
   \<and> process_document (ocr_world scanned_note) (file_named ''note.png'')
      = Inr (projr (process_document (ocr_world scanned_note) (file_named ''note.png'')))
   \<and> map (\<lambda>e. (el_text e, el_confidence e))
        (elements (projr (process_document (ocr_world scanned_note) (file_named ''note.png''))))
      = [(str_of ''Invoice'', 19 / 20), (str_of ''Total'', 7 / 10)]"
proof -
  let ?r = "process_document (pdf_world [Inr (str_of ''hello'')]) (file_named ''a.pdf'')"
  let ?q = "process_document (ocr_world scanned_note) (file_named ''note.png'')"
  have r: "\<not> isl ?r" and rn: "elements (projr ?r) \<noteq> []"
    by (simp_all add: eval_defs sample_defs priv_process_pdf_def pdf_page_elements_def strip_def
        isspace_def enumerate_eq_zip)
  have sfx: "lower (suffix (file_named ''a.pdf'')) = str_of ''.pdf''"
    by (simp add: eval_defs sample_defs)
  have q: "\<not> isl ?q"
    by (simp add: eval_defs sample_defs priv_process_image_def ocr_result_elements_def
        scanned_note_def strip_def isspace_def Let_def)
  have sfq: "lower (suffix (file_named ''note.png'')) \<noteq> str_of ''.pdf''
      \<and> lower (suffix (file_named ''note.png'')) \<noteq> str_of ''.docx''
      \<and> lower (suffix (file_named ''note.png'')) \<noteq> str_of ''.pptx''"
    by (simp add: eval_defs sample_defs)
  have rt: "readtext (ocr_world scanned_note) (file_named ''note.png'') = Inr scanned_note"
    by (simp add: sample_defs)
  have acc: "map (\<lambda>r. (ocr_text r, ocr_confidence r))
      (filter (\<lambda>r. 1 / 2 < ocr_confidence r \<and> strip (ocr_text r) \<noteq> []) scanned_note)
      = [(str_of ''Invoice'', 19 / 20), (str_of ''Total'', 7 / 10)]"
    by (simp add: scanned_note_def strip_def isspace_def str_of_def)
  from r have re: "?r = Inr (projr ?r)" by simp
  from q have qe: "?q = Inr (projr ?q)" by simp
  from element_confidence_by_format [of "pdf_world [Inr (str_of ''hello'')]" "file_named ''a.pdf''" "projr ?r"]
    re sfx
  have a: "el_confidence ` set (elements (projr ?r)) \<subseteq> {9 / 10}"
    by blast
  from element_confidence_by_format [of "ocr_world scanned_note" "file_named ''note.png''" "projr ?q"]
    qe sfq
  have "\<exists>rs. readtext (ocr_world scanned_note) (file_named ''note.png'') = Inr rs \<and>
      map (\<lambda>e. (el_text e, el_confidence e)) (elements (projr ?q)) =
        map (\<lambda>r. (ocr_text r, ocr_confidence r))
          (filter (\<lambda>r. 1 / 2 < ocr_confidence r \<and> strip (ocr_text r) \<noteq> []) rs)"
    by blast
  with rt have "map (\<lambda>e. (el_text e, el_confidence e)) (elements (projr ?q)) =
        map (\<lambda>r. (ocr_text r, ocr_confidence r))
          (filter (\<lambda>r. 1 / 2 < ocr_confidence r \<and> strip (ocr_text r) \<noteq> []) scanned_note)"
    by auto
  with acc have b: "map (\<lambda>e. (el_text e, el_confidence e)) (elements (projr ?q))
      = [(str_of ''Invoice'', 19 / 20), (str_of ''Total'', 7 / 10)]"
    by simp
  let ?d = "process_document (docx_world intro_docx) (file_named ''a.docx'')"
  have d: "\<not> isl ?d" and dn: "length (elements (projr ?d)) = 1"
    by (simp_all add: eval_defs sample_defs priv_process_docx_def docx_paragraph_elements_def
        docx_table_elements_def intro_docx_def strip_def isspace_def enumerate_eq_zip)
  have sfd: "lower (suffix (file_named ''a.docx'')) = str_of ''.docx''"
    by (simp add: eval_defs sample_defs)
  from d have de: "?d = Inr (projr ?d)" by simp
  from element_confidence_by_format [of "docx_world intro_docx" "file_named ''a.docx''" "projr ?d"]
    de sfd
  have c: "el_confidence ` set (elements (projr ?d)) \<subseteq> {1}"
    by blast
  from re sfx rn a de dn c qe b show ?thesis by blast
qed

text \<open>
  C8. Every element of a returned document should have text that is non-empty after
  trimming. The table loop of \<open>_process_docx\<close> does not ensure it: for a DOCX without
  paragraphs and with one table of one column whose two cells are a space and the empty
  string, the document returned has one element, and its text trims to the empty string.
\<close>

theorem blank_table_element:
  "map_sum id (map (strip \<circ> el_text) \<circ> elements)
       (process_document
          (docx_world \<lparr>paragraphs = [], tables = [[[str_of '' ''], [[]]]]\<rparr>)
          (file_named ''table.docx''))
     = Inr [[]]"
  by (simp add: eval_defs sample_defs priv_process_docx_def docx_paragraph_elements_def
      docx_table_elements_def strip_def isspace_def enumerate_eq_zip)

section \<open>Construction of the manager and the fallback responses\<close>

lemma try_load_None: "try_load r = None \<longleftrightarrow> isl r"
  by (cases r) (simp_all add: try_load_def)

text \<open>
  C6. Constructing the manager fails exactly when the embedding model fails to load. When
  construction succeeds, the summarizer, the question answerer and the classifier are
  absent exactly when their own load failed, and the language detector is always absent.
  A call of \<open>summarize_text\<close> or \<open>answer_question\<close> on a manager whose model is absent makes
  no inference call and returns the fallback response: confidence 0.0, \<open>fallback = True\<close>
  in the metadata, and a content built from the first 200 (respectively 300) characters
  of the input.
\<close>

theorem load_models_and_fallbacks:
  "(isl (priv_load_models l) \<longleftrightarrow> isl (load_embedding l))
   \<and> (priv_load_models l = Inr m \<longrightarrow>
        (summarizer m = None \<longleftrightarrow> isl (load_summarizer l))
      \<and> (qa_model m = None \<longleftrightarrow> isl (load_qa l))
      \<and> (classifier m = None \<longleftrightarrow> isl (load_classifier l))
      \<and> lang_detector m = None)
   \<and> (summarizer m = None \<longrightarrow>
        summarize_text m text max_length min_length language elapsed =
          (\<lparr>content = str_of ''Summary unavailable (model not loaded). Text preview: ''
                        @ take 200 text @ str_of ''...'',
            confidence = 0,
            metadata = [(''fallback'', VBool True), (''language'', VStr language)],
            processing_time = elapsed\<rparr>, []))
   \<and> (qa_model m = None \<longrightarrow>
        answer_question m question context language elapsed =
          (\<lparr>content = str_of ''Question answering unavailable (model not loaded). Based on the context, here's relevant text: ''
                        @ take 300 context @ str_of ''...'',
            confidence = 0,
            metadata = [(''fallback'', VBool True), (''question'', VStr question), (''language'', VStr language)],
            processing_time = elapsed\<rparr>, []))"
proof (intro conjI impI)
  show "isl (priv_load_models l) \<longleftrightarrow> isl (load_embedding l)"
    by (simp add: priv_load_models_def Let_def try_load_None)
next
  assume m: "priv_load_models l = Inr m"
  then have fields: "summarizer m = try_load (load_summarizer l)" "qa_model m = try_load (load_qa l)"
    "classifier m = try_load (load_classifier l)" "lang_detector m = None"
    by (auto simp: priv_load_models_def Let_def split: if_splits)
  show "summarizer m = None \<longleftrightarrow> isl (load_summarizer l)"
    by (simp add: fields try_load_None)
  show "qa_model m = None \<longleftrightarrow> isl (load_qa l)"
    by (simp add: fields try_load_None)
  show "classifier m = None \<longleftrightarrow> isl (load_classifier l)"
    by (simp add: fields try_load_None)
  show "lang_detector m = None"
    by (simp add: fields)
next
  assume "summarizer m = None"
  then show "summarize_text m text max_length min_length language elapsed =
          (\<lparr>content = str_of ''Summary unavailable (model not loaded). Text preview: ''
                        @ take 200 text @ str_of ''...'',
            confidence = 0,
            metadata = [(''fallback'', VBool True), (''language'', VStr language)],
            processing_time = elapsed\<rparr>, [])"
    by (simp add: summarize_text_def slice_def)
next
  assume "qa_model m = None"
  then show "answer_question m question context language elapsed =
          (\<lparr>content = str_of ''Question answering unavailable (model not loaded). Based on the context, here's relevant text: ''
                        @ take 300 context @ str_of ''...'',
            confidence = 0,
            metadata = [(''fallback'', VBool True), (''question'', VStr question), (''language'', VStr language)],
            processing_time = elapsed\<rparr>, [])"
    by (simp add: answer_question_def slice_def)
qed

theorem load_models_and_fallbacks_witness:
  "isl (priv_load_models no_embedding_loaders)
   \<and> priv_load_models sample_loaders = Inr (projr (priv_load_models sample_loaders))
   \<and> summarizer (projr (priv_load_models sample_loaders)) = None
   \<and> classifier (projr (priv_load_models sample_loaders)) \<noteq> None
   \<and> confidence (fst (summarize_text (projr (priv_load_models sample_loaders))
          (str_of ''A long report.'') 150 50 (str_of ''en'') 0)) = 0
   \<and> map_of (metadata (fst (summarize_text (projr (priv_load_models sample_loaders))
          (str_of ''A long report.'') 150 50 (str_of ''en'') 0))) ''fallback'' = Some (VBool True)
   \<and> content (fst (answer_question (projr (priv_load_models sample_loaders))
          (str_of ''Who?'') (str_of ''Nobody.'') (str_of ''en'') 0))
      = str_of ''Question answering unavailable (model not loaded). Based on the context, here's relevant text: Nobody....''"
proof -
  let ?m = "projr (priv_load_models sample_loaders)"
  have 0: "isl (load_embedding no_embedding_loaders)"
    by (simp add: no_embedding_loaders_def)
  have 1: "\<not> isl (load_embedding sample_loaders)" "isl (load_summarizer sample_loaders)"
    "isl (load_qa sample_loaders)" "\<not> isl (load_classifier sample_loaders)"
    by (simp_all add: sample_loaders_def)
  from load_models_and_fallbacks [of no_embedding_loaders] 0
  have a: "isl (priv_load_models no_embedding_loaders)"
    by blast
  from load_models_and_fallbacks [of sample_loaders] 1
  have "\<not> isl (priv_load_models sample_loaders)"
    by blast
  then have b: "priv_load_models sample_loaders = Inr ?m"
    by simp
  from load_models_and_fallbacks [of sample_loaders ?m] b 1
  have c: "summarizer ?m = None" "qa_model ?m = None" "classifier ?m \<noteq> None"
    by blast+
  from load_models_and_fallbacks [of sample_loaders ?m "str_of ''A long report.''" 150 50 "str_of ''en''" 0] c
  have d: "summarize_text ?m (str_of ''A long report.'') 150 50 (str_of ''en'') 0 =
          (\<lparr>content = str_of ''Summary unavailable (model not loaded). Text preview: ''
                        @ take 200 (str_of ''A long report.'') @ str_of ''...'',
            confidence = 0,
            metadata = [(''fallback'', VBool True), (''language'', VStr (str_of ''en''))],
            processing_time = 0\<rparr>, [])"
    by blast
  from load_models_and_fallbacks [of sample_loaders ?m _ _ _ "str_of ''en''" 0 "str_of ''Who?''"
      "str_of ''Nobody.''"] c
  have e: "answer_question ?m (str_of ''Who?'') (str_of ''Nobody.'') (str_of ''en'') 0 =
          (\<lparr>content = str_of ''Question answering unavailable (model not loaded). Based on the context, here's relevant text: ''
                        @ take 300 (str_of ''Nobody.'') @ str_of ''...'',
            confidence = 0,
            metadata = [(''fallback'', VBool True), (''question'', VStr (str_of ''Who?'')), (''language'', VStr (str_of ''en''))],
            processing_time = 0\<rparr>, [])"
    by blast
  show ?thesis
    unfolding d e using a b c by (simp add: str_of_def)
qed

section \<open>analyze\_sentiment\<close>



text \<open>
  C10. The result of \<open>analyze_sentiment\<close> depends on the first 500 characters of the text
  only: two texts with the same first 500 characters give the same result and the same
  classifier call, and when a classifier is loaded it is called once, on the first 500
  characters, and its answer (or its exception) decides the result.
\<close>

theorem sentiment_reads_500:
  "(take 500 t1 = take 500 t2 \<longrightarrow> analyze_sentiment m t1 = analyze_sentiment m t2)
   \<and> (classifier m = Some f \<longrightarrow>
        snd (analyze_sentiment m t1) = [take 500 t1]
        \<and> fst (analyze_sentiment m t1) =
            (case f (take 500 t1) of
               Inl e \<Rightarrow> sentiment_error e
             | Inr (label, sc) \<Rightarrow>
                 [(''sentiment'', VStr label), (''confidence'', VNum sc),
                  (''analysis'', VStr (str_of ''multilingual_sentiment''))]))"
  by (auto simp: analyze_sentiment_def slice_def split: option.splits sum.splits)

theorem sentiment_reads_500_witness:
  "take 500 (replicate 500 97 @ [33]) = take 500 (replicate 500 97 @ [63, 63 :: nat])
   \<and> replicate 500 97 @ [33] \<noteq> replicate 500 97 @ [63, 63 :: nat]
   \<and> analyze_sentiment sentiment_manager (replicate 500 97 @ [33])
      = analyze_sentiment sentiment_manager (replicate 500 97 @ [63, 63])
   \<and> snd (analyze_sentiment sentiment_manager (replicate 500 97 @ [33])) = [replicate 500 97]"
proof -
  have 1: "take 500 (replicate 500 97 @ [33]) = take 500 (replicate 500 97 @ [63, 63 :: nat])"
    by simp
  have 2: "classifier sentiment_manager = Some (\<lambda>s. Inr (str_of ''positive'', real (length s) / 1000))"
    by (simp add: sentiment_manager_def priv_load_models_def sample_loaders_def try_load_def)
  from sentiment_reads_500 [of "replicate 500 97 @ [33]" "replicate 500 97 @ [63, 63]" sentiment_manager] 1
  have a: "analyze_sentiment sentiment_manager (replicate 500 97 @ [33])
      = analyze_sentiment sentiment_manager (replicate 500 97 @ [63, 63])"
    by blast
  from sentiment_reads_500 [of "replicate 500 97 @ [33]" _ sentiment_manager] 2
  have b: "snd (analyze_sentiment sentiment_manager (replicate 500 97 @ [33])) = [take 500 (replicate 500 97 @ [33])]"
    by blast
  from 1 a b show ?thesis by simp
qed

section \<open>Properties of the chunking\<close>

lemma concat_strided_takes:
  "concat (map (\<lambda>k. take n (drop (k * n) xs)) [0..<m]) = take (m * n) xs"
proof (induction m)
  case 0
  then show ?case by simp
next
  case (Suc m)
  have "take (m * n) xs @ take n (drop (m * n) xs) = take (m * n + n) xs"
    by (simp add: take_add)
  with Suc show ?case by (simp add: add.commute)
qed

lemma ceil_div_covers: "0 < n \<Longrightarrow> (len::nat) \<le> ((len + n - 1) div n) * n"
proof -
  assume n: "0 < n"
  have "len + n - 1 = ((len + n - 1) div n) * n + (len + n - 1) mod n"
    by simp
  moreover have "(len + n - 1) mod n \<le> n - 1"
    using n by (simp add: less_Suc_eq_le [symmetric])
  ultimately show ?thesis
    using n by linarith
qed

lemma text_chunks_eq:
  "text_chunks n s = map (\<lambda>k. take n (drop (k * n) s)) [0..<(length s + n - 1) div n]"
  by (simp add: text_chunks_def range_step_def slice_def comp_def)

lemma concat_text_chunks: "0 < n \<Longrightarrow> concat (text_chunks n s) = s"
  using ceil_div_covers [of n "length s"] by (simp add: text_chunks_eq concat_strided_takes)

lemma length_text_chunks: "length (text_chunks n s) = (length s + n - 1) div n"
  by (simp add: text_chunks_eq)

lemma text_chunks_sizes:
  assumes "0 < n" and "c \<in> set (text_chunks n s)"
  shows "0 < length c \<and> length c \<le> n"
proof -
  from assms obtain k where k: "k < (length s + n - 1) div n" and c: "c = take n (drop (k * n) s)"
    by (auto simp: text_chunks_eq)
  from k have "k * n < length s + n - 1 - (n - 1)"
  proof -
    from k have "Suc k \<le> (length s + n - 1) div n" by simp
    then have "Suc k * n \<le> length s + n - 1"
      using assms(1) by (simp add: less_eq_div_iff_mult_less_eq)
    then show ?thesis using assms(1) by simp
  qed
  then have "k * n < length s" using assms(1) by simp
  with c assms(1) show ?thesis by simp
qed

lemma butlast_upt_0: "butlast [0..<m] = [0..<m - 1]"
  by (cases m) simp_all

lemma text_chunks_full:
  assumes "0 < n" and "c \<in> set (butlast (text_chunks n s))"
  shows "length c = n"
proof -
  let ?m = "(length s + n - 1) div n"
  have "butlast (text_chunks n s) = map (\<lambda>k. take n (drop (k * n) s)) [0..<?m - 1]"
    by (simp add: text_chunks_eq map_butlast [symmetric] butlast_upt_0)
  with assms obtain k where k: "k < ?m - 1" and c: "c = take n (drop (k * n) s)"
    by auto
  from k have "Suc (Suc k) \<le> ?m" by simp
  then have "Suc (Suc k) * n \<le> length s + n - 1"
    using assms(1) by (simp add: less_eq_div_iff_mult_less_eq)
  then have "k * n + n \<le> length s" using assms(1) by simp
  with c show ?thesis by simp
qed

section \<open>summarize\_text\<close>

lemma summarize_chunks_calls_le:
  "length (snd (summarize_chunks f mx mn n chunks)) \<le> length chunks"
  by (induction chunks) (auto split: sum.splits prod.splits)

lemma summarize_chunks_all:
  "\<forall>c\<in>set chunks. \<not> isl (f c (mx div n) (mn div n)) \<Longrightarrow>
   summarize_chunks f mx mn n chunks =
     (Inr (map (\<lambda>c. projr (f c (mx div n) (mn div n))) chunks),
      map (\<lambda>c. (c, mx div n, mn div n)) chunks)"
  by (induction chunks) (auto split: sum.splits prod.splits)

lemma summarize_body_calls_le:
  "length text > 1000 \<Longrightarrow>
   length (snd (summarize_body f text mx mn)) \<le> length (text_chunks 1000 text) + 1"
  using summarize_chunks_calls_le [of f mx mn "int (length (text_chunks 1000 text))" "text_chunks 1000 text"]
  by (auto simp: summarize_body_def Let_def split: sum.splits prod.splits)

lemma summarize_text_calls:
  "summarizer self = Some f \<Longrightarrow>
   snd (summarize_text self text mx mn language elapsed) = snd (summarize_body f text mx mn)"
  by (auto simp: summarize_text_def split: sum.splits prod.splits)

lemma summarize_text_success:
  "summarizer self = Some f \<Longrightarrow> summarize_body f text mx mn = (Inr s, calls) \<Longrightarrow>
   summarize_text self text mx mn language elapsed = (summary_response s text language elapsed, calls)"
  by (simp add: summarize_text_def)

lemma summarize_body_chunked:
  assumes long: "length text > 1000"
    and ok: "\<forall>c\<in>set (text_chunks 1000 text).
        \<not> isl (f c (mx div int (length (text_chunks 1000 text))) (mn div int (length (text_chunks 1000 text))))"
  shows "summarize_body f text mx mn =
    (let n = int (length (text_chunks 1000 text));
         chunk_calls = map (\<lambda>c. (c, mx div n, mn div n)) (text_chunks 1000 text);
         combined = join (str_of '' '') (map (\<lambda>c. projr (f c (mx div n) (mn div n))) (text_chunks 1000 text))
     in if int (length combined) > 2 * mx
        then (f combined mx mn, chunk_calls @ [(combined, mx, mn)])
        else (Inr combined, chunk_calls))"
  using long ok
    summarize_chunks_all [where chunks = "text_chunks 1000 text" and f = f and mx = mx and mn = mn
      and n = "int (length (text_chunks 1000 text))"]
  by (simp add: summarize_body_def Let_def mult.commute)

text \<open>
  C2. With a summarizer loaded, for a text of more than 1000 characters: the chunks are
  consecutive pieces of the text (their concatenation is the text), each non-empty and of
  at most 1000 characters, all but the last of exactly 1000; at most one inference call
  more than there are chunks is made, whatever the calls return. When no chunk call
  raises, each chunk was summarized with the target lengths divided by the number of
  chunks, the summaries are joined (with a single space between them), and the joined
  text is summarized once more, with the undivided targets, exactly when its length
  exceeds twice the target length; otherwise it is the content of the response. For a
  text of at most 1000 characters a single call is made, on the whole text, and the
  response is built from its result by the same code as in the chunked case.
\<close>

theorem summarize_text_chunking:
  "summarizer self = Some f \<longrightarrow>
     (length text > 1000 \<longrightarrow>
        concat (text_chunks 1000 text) = text
      \<and> (\<forall>c\<in>set (text_chunks 1000 text). 0 < length c \<and> length c \<le> 1000)
      \<and> (\<forall>c\<in>set (butlast (text_chunks 1000 text)). length c = 1000)
      \<and> length (snd (summarize_text self text max_length min_length language elapsed))
           \<le> length (text_chunks 1000 text) + 1
      \<and> ((\<forall>c\<in>set (text_chunks 1000 text).
             \<not> isl (f c (max_length div int (length (text_chunks 1000 text)))
                        (min_length div int (length (text_chunks 1000 text))))) \<longrightarrow>
          (let n = int (length (text_chunks 1000 text));
               chunk_calls = map (\<lambda>c. (c, max_length div n, min_length div n)) (text_chunks 1000 text);
               combined = join (str_of '' '')
                 (map (\<lambda>c. projr (f c (max_length div n) (min_length div n))) (text_chunks 1000 text))
           in if int (length combined) > 2 * max_length
              then snd (summarize_text self text max_length min_length language elapsed)
                     = chunk_calls @ [(combined, max_length, min_length)]
                   \<and> (\<forall>s. f combined max_length min_length = Inr s \<longrightarrow>
                        fst (summarize_text self text max_length min_length language elapsed)
                          = summary_response s text language elapsed)
              else summarize_text self text max_length min_length language elapsed
                     = (summary_response combined text language elapsed, chunk_calls))))
   \<and> (length text \<le> 1000 \<longrightarrow>
        snd (summarize_text self text max_length min_length language elapsed)
          = [(text, max_length, min_length)]
      \<and> (\<forall>s. f text max_length min_length = Inr s \<longrightarrow>
           fst (summarize_text self text max_length min_length language elapsed)
             = summary_response s text language elapsed))"
proof (intro impI conjI)
  assume f: "summarizer self = Some f"
  {
    assume long: "length text > 1000"
    show "concat (text_chunks 1000 text) = text"
      by (simp add: concat_text_chunks)
    show "\<forall>c\<in>set (text_chunks 1000 text). 0 < length c \<and> length c \<le> 1000"
      using text_chunks_sizes [of 1000 _ "text"] by simp
    show "\<forall>c\<in>set (butlast (text_chunks 1000 text)). length c = 1000"
      using text_chunks_full [of 1000 _ "text"] by simp
    show "length (snd (summarize_text self text max_length min_length language elapsed))
           \<le> length (text_chunks 1000 text) + 1"
      using summarize_body_calls_le [OF long] by (simp add: summarize_text_calls [OF f])
    assume ok: "\<forall>c\<in>set (text_chunks 1000 text).
             \<not> isl (f c (max_length div int (length (text_chunks 1000 text)))
                        (min_length div int (length (text_chunks 1000 text))))"
    show "let n = int (length (text_chunks 1000 text));
               chunk_calls = map (\<lambda>c. (c, max_length div n, min_length div n)) (text_chunks 1000 text);
               combined = join (str_of '' '')
                 (map (\<lambda>c. projr (f c (max_length div n) (min_length div n))) (text_chunks 1000 text))
           in if int (length combined) > 2 * max_length
              then snd (summarize_text self text max_length min_length language elapsed)
                     = chunk_calls @ [(combined, max_length, min_length)]
                   \<and> (\<forall>s. f combined max_length min_length = Inr s \<longrightarrow>
                        fst (summarize_text self text max_length min_length language elapsed)
                          = summary_response s text language elapsed)
              else summarize_text self text max_length min_length language elapsed
                     = (summary_response combined text language elapsed, chunk_calls)"
      using long ok summarize_body_chunked [of "text" f max_length min_length]
      by (auto simp: Let_def summarize_text_calls [OF f] summarize_text_success [OF f])
  }
  {
    assume short: "length text \<le> 1000"
    then have body: "summarize_body f text max_length min_length
        = (f text max_length min_length, [(text, max_length, min_length)])"
      by (simp add: summarize_body_def)
    show "snd (summarize_text self text max_length min_length language elapsed)
          = [(text, max_length, min_length)]"
      by (simp add: summarize_text_calls [OF f] body)
    show "\<forall>s. f text max_length min_length = Inr s \<longrightarrow>
           fst (summarize_text self text max_length min_length language elapsed)
             = summary_response s text language elapsed"
      using body by (simp add: summarize_text_success [OF f])
  }
qed

lemma chunks_2500:
  "text_chunks 1000 (replicate 2500 (97::nat)) = [replicate 1000 97, replicate 1000 97, replicate 500 97]"
  by (simp add: text_chunks_eq upt_rec)

theorem summarize_text_chunking_witness:
  "text_chunks 1000 (replicate 2500 97) = [replicate 1000 97, replicate 1000 97, replicate 500 97]
   \<and> snd (summarize_text summarizing_manager (replicate 2500 97) 150 50 (str_of ''en'') 0)
      = [(replicate 1000 97, 50, 16), (replicate 1000 97, 50, 16), (replicate 500 97, 50, 16),
         (replicate 100 97 @ [32] @ replicate 100 97 @ [32] @ replicate 100 97, 150, 50)]
   \<and> fst (summarize_text summarizing_manager (replicate 2500 97) 150 50 (str_of ''en'') 0)
      = summary_response (replicate 100 97) (replicate 2500 97) (str_of ''en'') 0
   \<and> summarize_text summarizing_manager (replicate 2500 97) 400 50 (str_of ''en'') 0
      = (summary_response (replicate 100 97 @ [32] @ replicate 100 97 @ [32] @ replicate 100 97)
           (replicate 2500 97) (str_of ''en'') 0,
         [(replicate 1000 97, 133, 16), (replicate 1000 97, 133, 16), (replicate 500 97, 133, 16)])
   \<and> summarize_text summarizing_manager (replicate 400 97) 150 50 (str_of ''en'') 0
      = (summary_response (replicate 100 97) (replicate 400 97) (str_of ''en'') 0,
         [(replicate 400 97, 150, 50)])"
proof -
  let ?T = "replicate 2500 (97::nat)"
  let ?C = "replicate 100 97 @ [32] @ replicate 100 97 @ [32] @ replicate 100 (97::nat)"
  have m: "summarizer summarizing_manager = Some head_summarizer"
    by (simp add: summarizing_manager_def)
  have ok: "\<forall>c\<in>set (text_chunks 1000 ?T). \<not> isl (head_summarizer c a b)" for a b
    by (simp add: head_summarizer_def)
  have comb: "join (str_of '' '') (map (\<lambda>c. projr (head_summarizer c a b)) (text_chunks 1000 ?T)) = ?C" for a b
    by (simp add: chunks_2500 head_summarizer_def str_of_def)
  have len: "int (length ?C) = 302"
    by simp
  note thm1 = summarize_text_chunking [of summarizing_manager head_summarizer ?T 150 50 "str_of ''en''" 0]
  note thm2 = summarize_text_chunking [of summarizing_manager head_summarizer ?T 400 50 "str_of ''en''" 0]
  note thm3 = summarize_text_chunking [of summarizing_manager head_summarizer "replicate 400 97" 150 50 "str_of ''en''" 0]
  from thm1 m ok
  have a: "snd (summarize_text summarizing_manager ?T 150 50 (str_of ''en'') 0)
      = [(replicate 1000 97, 50, 16), (replicate 1000 97, 50, 16), (replicate 500 97, 50, 16), (?C, 150, 50)]
    \<and> fst (summarize_text summarizing_manager ?T 150 50 (str_of ''en'') 0)
      = summary_response (replicate 100 97) ?T (str_of ''en'') 0"
    unfolding Let_def comb len by (simp add: chunks_2500 head_summarizer_def)
  from thm2 m ok
  have b: "summarize_text summarizing_manager ?T 400 50 (str_of ''en'') 0
      = (summary_response ?C ?T (str_of ''en'') 0,
         [(replicate 1000 97, 133, 16), (replicate 1000 97, 133, 16), (replicate 500 97, 133, 16)])"
    unfolding Let_def comb len by (simp add: chunks_2500)
  from thm3 m
  have c: "summarize_text summarizing_manager (replicate 400 97) 150 50 (str_of ''en'') 0
      = (summary_response (replicate 100 97) (replicate 400 97) (str_of ''en'') 0,
         [(replicate 400 97, 150, 50)])"
    by (simp add: head_summarizer_def prod_eq_iff)
  from a b c chunks_2500 show ?thesis by simp
qed

section \<open>answer\_question\<close>

lemma context_windows_eq:
  "context_windows 2000 s = map (\<lambda>k. take 2000 (drop (k * 1000) s)) [0..<(length s + 999) div 1000]"
  by (simp add: context_windows_def range_step_def slice_def comp_def add.commute)

lemma context_windows_overlap:
  assumes "Suc k < length (context_windows 2000 s)"
  shows "drop 1000 (context_windows 2000 s ! k) = take 1000 (context_windows 2000 s ! Suc k)"
proof -
  from assms have k: "Suc k < (length s + 999) div 1000"
    by (simp add: context_windows_eq)
  then have "context_windows 2000 s ! k = take 2000 (drop (k * 1000) s)"
    and "context_windows 2000 s ! Suc k = take 2000 (drop (Suc k * 1000) s)"
    by (simp_all add: context_windows_eq del: mult_Suc)
  then show ?thesis
    by (simp add: drop_take add.commute)
qed

lemma qa_loop_fails:
  "\<exists>w\<in>set ws. isl (f q w) \<Longrightarrow> isl (fst (qa_loop f q ws best))"
proof (induction ws arbitrary: best)
  case Nil
  then show ?case by simp
next
  case (Cons w ws)
  obtain b s where best: "best = (b, s)" by (cases best)
  show ?case
  proof (cases "f q w")
    case (Inl e)
    then show ?thesis by (simp add: best)
  next
    case (Inr r)
    with Cons.prems have "\<exists>w\<in>set ws. isl (f q w)" by auto
    then have "isl (fst (qa_loop f q ws (if score r > s then (Some r, score r) else (b, s))))"
      by (rule Cons.IH)
    with Inr show ?thesis
      by (cases "s < score r") (auto simp: best split: prod.splits)
  qed
qed

lemma qa_loop_all:
  assumes "\<forall>w\<in>set ws. \<not> isl (f q w)"
  shows "\<exists>b s. qa_loop f q ws (b0, s0) = (Inr (b, s), map (\<lambda>w. (q, w)) ws) \<and>
     ((b, s) = (b0, s0) \<and> (\<forall>w\<in>set ws. score (projr (f q w)) \<le> s0)
      \<or> (\<exists>pre w post. ws = pre @ w # post \<and> b = Some (projr (f q w)) \<and> s = score (projr (f q w))
            \<and> s0 < s
            \<and> (\<forall>x\<in>set pre. score (projr (f q x)) < s)
            \<and> (\<forall>x\<in>set post. score (projr (f q x)) \<le> s)))"
  using assms
proof (induction ws arbitrary: b0 s0)
  case Nil
  then show ?case by simp
next
  case (Cons w ws)
  from Cons.prems obtain r where r: "f q w = Inr r"
    by (cases "f q w") auto
  from Cons.prems have rest: "\<forall>w\<in>set ws. \<not> isl (f q w)" by simp
  show ?case
  proof (cases "score r > s0")
    case True
    from Cons.IH [OF rest, of "Some r" "score r"] obtain b s where
      loop: "qa_loop f q ws (Some r, score r) = (Inr (b, s), map (\<lambda>w. (q, w)) ws)" and
      alt: "(b, s) = (Some r, score r) \<and> (\<forall>w\<in>set ws. score (projr (f q w)) \<le> score r)
        \<or> (\<exists>pre w post. ws = pre @ w # post \<and> b = Some (projr (f q w)) \<and> s = score (projr (f q w))
            \<and> score r < s
            \<and> (\<forall>x\<in>set pre. score (projr (f q x)) < s)
            \<and> (\<forall>x\<in>set post. score (projr (f q x)) \<le> s))"
      by blast
    have run: "qa_loop f q (w # ws) (b0, s0) = (Inr (b, s), map (\<lambda>w. (q, w)) (w # ws))"
      using r True loop by simp
    from alt show ?thesis
    proof
      assume same: "(b, s) = (Some r, score r) \<and> (\<forall>w\<in>set ws. score (projr (f q w)) \<le> score r)"
      then have "w # ws = [] @ w # ws \<and> b = Some (projr (f q w)) \<and> s = score (projr (f q w))
            \<and> s0 < s \<and> (\<forall>x\<in>set []. score (projr (f q x)) < s)
            \<and> (\<forall>x\<in>set ws. score (projr (f q x)) \<le> s)"
        using r True by simp
      with run show ?thesis by blast
    next
      assume "\<exists>pre w post. ws = pre @ w # post \<and> b = Some (projr (f q w)) \<and> s = score (projr (f q w))
            \<and> score r < s
            \<and> (\<forall>x\<in>set pre. score (projr (f q x)) < s)
            \<and> (\<forall>x\<in>set post. score (projr (f q x)) \<le> s)"
      then obtain pre v post where d: "ws = pre @ v # post" "b = Some (projr (f q v))"
        "s = score (projr (f q v))" "score r < s" "\<forall>x\<in>set pre. score (projr (f q x)) < s"
        "\<forall>x\<in>set post. score (projr (f q x)) \<le> s"
        by blast
      then have "w # ws = (w # pre) @ v # post \<and> b = Some (projr (f q v)) \<and> s = score (projr (f q v))
            \<and> s0 < s \<and> (\<forall>x\<in>set (w # pre). score (projr (f q x)) < s)
            \<and> (\<forall>x\<in>set post. score (projr (f q x)) \<le> s)"
        using r True by simp
      with run show ?thesis by blast
    qed
  next
    case False
    from Cons.IH [OF rest, of b0 s0] obtain b s where
      loop: "qa_loop f q ws (b0, s0) = (Inr (b, s), map (\<lambda>w. (q, w)) ws)" and
      alt: "(b, s) = (b0, s0) \<and> (\<forall>w\<in>set ws. score (projr (f q w)) \<le> s0)
        \<or> (\<exists>pre w post. ws = pre @ w # post \<and> b = Some (projr (f q w)) \<and> s = score (projr (f q w))
            \<and> s0 < s
            \<and> (\<forall>x\<in>set pre. score (projr (f q x)) < s)
            \<and> (\<forall>x\<in>set post. score (projr (f q x)) \<le> s))"
      by blast
    have run: "qa_loop f q (w # ws) (b0, s0) = (Inr (b, s), map (\<lambda>w. (q, w)) (w # ws))"
      using r False loop by simp
    from alt show ?thesis
    proof
      assume "(b, s) = (b0, s0) \<and> (\<forall>w\<in>set ws. score (projr (f q w)) \<le> s0)"
      then have "(b, s) = (b0, s0) \<and> (\<forall>x\<in>set (w # ws). score (projr (f q x)) \<le> s0)"
        using r False by simp
      with run show ?thesis by blast
    next
      assume "\<exists>pre w post. ws = pre @ w # post \<and> b = Some (projr (f q w)) \<and> s = score (projr (f q w))
            \<and> s0 < s
            \<and> (\<forall>x\<in>set pre. score (projr (f q x)) < s)
            \<and> (\<forall>x\<in>set post. score (projr (f q x)) \<le> s)"
      then obtain pre v post where d: "ws = pre @ v # post" "b = Some (projr (f q v))"
        "s = score (projr (f q v))" "s0 < s" "\<forall>x\<in>set pre. score (projr (f q x)) < s"
        "\<forall>x\<in>set post. score (projr (f q x)) \<le> s"
        by blast
      then have "w # ws = (w # pre) @ v # post \<and> b = Some (projr (f q v)) \<and> s = score (projr (f q v))
            \<and> s0 < s \<and> (\<forall>x\<in>set (w # pre). score (projr (f q x)) < s)
            \<and> (\<forall>x\<in>set post. score (projr (f q x)) \<le> s)"
        using r False by simp
      with run show ?thesis by blast
    qed
  qed
qed

lemma answer_question_loaded:
  "qa_model self = Some f \<Longrightarrow>
   answer_question self question ctx language elapsed =
     (case answer_body f question ctx of
        (Inr (a, c), calls) \<Rightarrow> (answer_response a c question language elapsed, calls)
      | (Inl e, calls) \<Rightarrow>
          (\<lparr>content = str_of ''Error answering question: '' @ exn_str e,
            confidence = 0,
            metadata = [(''error'', VStr (exn_str e)), (''question'', VStr question)],
            processing_time = elapsed\<rparr>, calls))"
  by (simp add: answer_question_def split: prod.splits sum.splits)

text \<open>
  C3. With a question answerer loaded, for a context of more than 2000 characters: the
  windows are the slices of 2000 characters that start at 0, 1000, 2000, ..., so that the
  second half of each window is the first half of the next. When no call raises, the
  primitive is called once on every window, in order; if some window has a positive
  score, the response carries the answer and the score of a window whose score is
  strictly above the scores of all earlier windows and at least the scores of all later
  ones (the earliest window of maximal score); if no window has a positive score, the
  response is the placeholder \<open>No answer found\<close> with confidence 0.0. When a call raises,
  the response still is a \<open>ModelResponse\<close>, of confidence 0.0.
\<close>

theorem answer_question_windows:
  "qa_model self = Some f \<and> length ctx > 2000 \<longrightarrow>
     context_windows 2000 ctx
       = map (\<lambda>k. slice ctx (k * 1000) (k * 1000 + 2000)) [0..<(length ctx + 999) div 1000]
   \<and> (\<forall>k. Suc k < length (context_windows 2000 ctx) \<longrightarrow>
         drop 1000 (context_windows 2000 ctx ! k) = take 1000 (context_windows 2000 ctx ! Suc k))
   \<and> ((\<forall>w\<in>set (context_windows 2000 ctx). \<not> isl (f question w)) \<longrightarrow>
        snd (answer_question self question ctx language elapsed)
          = map (\<lambda>w. (question, w)) (context_windows 2000 ctx)
      \<and> (if \<exists>w\<in>set (context_windows 2000 ctx). 0 < score (projr (f question w))
         then \<exists>pre w post.
                context_windows 2000 ctx = pre @ w # post
              \<and> (\<forall>x\<in>set pre. score (projr (f question x)) < score (projr (f question w)))
              \<and> (\<forall>x\<in>set post. score (projr (f question x)) \<le> score (projr (f question w)))
              \<and> content (fst (answer_question self question ctx language elapsed))
                  = answer (projr (f question w))
              \<and> confidence (fst (answer_question self question ctx language elapsed))
                  = score (projr (f question w))
         else content (fst (answer_question self question ctx language elapsed)) = str_of ''No answer found''
              \<and> confidence (fst (answer_question self question ctx language elapsed)) = 0))
   \<and> ((\<exists>w\<in>set (context_windows 2000 ctx). isl (f question w)) \<longrightarrow>
        confidence (fst (answer_question self question ctx language elapsed)) = 0)"
proof (intro impI conjI allI)
  assume a: "qa_model self = Some f \<and> length ctx > 2000"
  then have f: "qa_model self = Some f" and long: "length ctx > 2000"
    by simp_all
  let ?ws = "context_windows 2000 ctx"
  show "?ws = map (\<lambda>k. slice ctx (k * 1000) (k * 1000 + 2000)) [0..<(length ctx + 999) div 1000]"
    by (simp add: context_windows_eq slice_def)
  {
    fix k assume "Suc k < length ?ws"
    then show "drop 1000 (?ws ! k) = take 1000 (?ws ! Suc k)"
      by (rule context_windows_overlap)
  }
  {
    assume bad: "\<exists>w\<in>set ?ws. isl (f question w)"
    then have "isl (fst (qa_loop f question ?ws (None, 0)))"
      by (rule qa_loop_fails)
    then obtain e calls where "qa_loop f question ?ws (None, 0) = (Inl e, calls)"
      by (cases "qa_loop f question ?ws (None, 0)") (auto simp: isl_def)
    with long have "answer_body f question ctx = (Inl e, calls)"
      by (simp add: answer_body_def)
    then show "confidence (fst (answer_question self question ctx language elapsed)) = 0"
      by (simp add: answer_question_loaded [OF f])
  }
  assume ok: "\<forall>w\<in>set ?ws. \<not> isl (f question w)"
  from ok qa_loop_all [of ?ws f question None 0] obtain b s where
    loop: "qa_loop f question ?ws (None, 0) = (Inr (b, s), map (\<lambda>w. (question, w)) ?ws)" and
    alt: "(b, s) = (None, 0) \<and> (\<forall>w\<in>set ?ws. score (projr (f question w)) \<le> 0)
      \<or> (\<exists>pre w post. ?ws = pre @ w # post \<and> b = Some (projr (f question w))
            \<and> s = score (projr (f question w)) \<and> 0 < s
            \<and> (\<forall>x\<in>set pre. score (projr (f question x)) < s)
            \<and> (\<forall>x\<in>set post. score (projr (f question x)) \<le> s))"
    by blast
  from long loop have body: "answer_body f question ctx =
      (case b of Some r \<Rightarrow> (Inr (answer r, s), map (\<lambda>w. (question, w)) ?ws)
               | None \<Rightarrow> (Inr (str_of ''No answer found'', 0), map (\<lambda>w. (question, w)) ?ws))"
    by (simp add: answer_body_def split: option.splits)
  show "snd (answer_question self question ctx language elapsed) = map (\<lambda>w. (question, w)) ?ws"
    by (simp add: answer_question_loaded [OF f] body split: option.splits)
  from alt show "if \<exists>w\<in>set ?ws. 0 < score (projr (f question w))
         then \<exists>pre w post.
                ?ws = pre @ w # post
              \<and> (\<forall>x\<in>set pre. score (projr (f question x)) < score (projr (f question w)))
              \<and> (\<forall>x\<in>set post. score (projr (f question x)) \<le> score (projr (f question w)))
              \<and> content (fst (answer_question self question ctx language elapsed))
                  = answer (projr (f question w))
              \<and> confidence (fst (answer_question self question ctx language elapsed))
                  = score (projr (f question w))
         else content (fst (answer_question self question ctx language elapsed)) = str_of ''No answer found''
              \<and> confidence (fst (answer_question self question ctx language elapsed)) = 0"
  proof
    assume none: "(b, s) = (None, 0) \<and> (\<forall>w\<in>set ?ws. score (projr (f question w)) \<le> 0)"
    then have "\<not> (\<exists>w\<in>set ?ws. 0 < score (projr (f question w)))"
      by (auto simp: not_less)
    moreover from none have "content (fst (answer_question self question ctx language elapsed)) = str_of ''No answer found''
        \<and> confidence (fst (answer_question self question ctx language elapsed)) = 0"
      by (simp add: answer_question_loaded [OF f] body answer_response_def)
    ultimately show ?thesis by simp
  next
    assume "\<exists>pre w post. ?ws = pre @ w # post \<and> b = Some (projr (f question w))
            \<and> s = score (projr (f question w)) \<and> 0 < s
            \<and> (\<forall>x\<in>set pre. score (projr (f question x)) < s)
            \<and> (\<forall>x\<in>set post. score (projr (f question x)) \<le> s)"
    then obtain pre w post where d: "?ws = pre @ w # post" "b = Some (projr (f question w))"
      "s = score (projr (f question w))" "0 < s"
      "\<forall>x\<in>set pre. score (projr (f question x)) < s"
      "\<forall>x\<in>set post. score (projr (f question x)) \<le> s"
      by blast
    from d(1) have "w \<in> set ?ws" by simp
    with d(3,4) have pos: "\<exists>w\<in>set ?ws. 0 < score (projr (f question w))"
      by blast
    from d(2,3) have "content (fst (answer_question self question ctx language elapsed))
          = answer (projr (f question w))
        \<and> confidence (fst (answer_question self question ctx language elapsed))
          = score (projr (f question w))"
      by (simp add: answer_question_loaded [OF f] body answer_response_def)
    with d have "\<exists>pre w post.
                ?ws = pre @ w # post
              \<and> (\<forall>x\<in>set pre. score (projr (f question x)) < score (projr (f question w)))
              \<and> (\<forall>x\<in>set post. score (projr (f question x)) \<le> score (projr (f question w)))
              \<and> content (fst (answer_question self question ctx language elapsed))
                  = answer (projr (f question w))
              \<and> confidence (fst (answer_question self question ctx language elapsed))
                  = score (projr (f question w))"
      by blast
    with pos show ?thesis by simp
  qed
qed

lemma windows_three_part:
  "context_windows 2000 three_part_context =
     [replicate 1000 97 @ replicate 1000 98, replicate 1000 98 @ replicate 500 99, replicate 500 99]"
  by (simp add: context_windows_eq three_part_context_def upt_rec)

theorem answer_question_windows_witness:
  "length three_part_context > 2000
   \<and> context_windows 2000 three_part_context =
       [replicate 1000 97 @ replicate 1000 98, replicate 1000 98 @ replicate 500 99, replicate 500 99]
   \<and> snd (answer_question (qa_manager first_letter_qa) (str_of ''Who?'') three_part_context (str_of ''en'') 0)
       = [(str_of ''Who?'', replicate 1000 97 @ replicate 1000 98),
          (str_of ''Who?'', replicate 1000 98 @ replicate 500 99),
          (str_of ''Who?'', replicate 500 99)]
   \<and> content (fst (answer_question (qa_manager first_letter_qa) (str_of ''Who?'') three_part_context
         (str_of ''en'') 0)) = [97]
   \<and> confidence (fst (answer_question (qa_manager first_letter_qa) (str_of ''Who?'') three_part_context
         (str_of ''en'') 0)) = 1 / 2
   \<and> content (fst (answer_question (qa_manager silent_qa) (str_of ''Who?'') three_part_context
         (str_of ''en'') 0)) = str_of ''No answer found''
   \<and> confidence (fst (answer_question (qa_manager silent_qa) (str_of ''Who?'') three_part_context
         (str_of ''en'') 0)) = 0
   \<and> confidence (fst (answer_question (qa_manager raising_qa) (str_of ''Who?'') three_part_context
         (str_of ''en'') 0)) = 0"
proof -
  let ?q = "str_of ''Who?''"
  have long: "length three_part_context > 2000"
    by (simp add: three_part_context_def)
  have m: "qa_model (qa_manager g) = Some g" for g
    by (simp add: qa_manager_def)
  have ok1: "\<forall>w\<in>set (context_windows 2000 three_part_context). \<not> isl (first_letter_qa ?q w)"
    by (simp add: first_letter_qa_def)
  have ok2: "\<forall>w\<in>set (context_windows 2000 three_part_context). \<not> isl (silent_qa ?q w)"
    by (simp add: silent_qa_def)
  have nopos: "\<not> (\<exists>w\<in>set (context_windows 2000 three_part_context). 0 < score (projr (silent_qa ?q w)))"
    by (simp add: silent_qa_def)
  from answer_question_windows [of "qa_manager first_letter_qa" first_letter_qa three_part_context
      ?q "str_of ''en''" 0] m long ok1
  have a: "snd (answer_question (qa_manager first_letter_qa) ?q three_part_context (str_of ''en'') 0)
      = map (\<lambda>w. (?q, w)) (context_windows 2000 three_part_context)"
    by blast
  from answer_question_windows [of "qa_manager silent_qa" silent_qa three_part_context
      ?q "str_of ''en''" 0] m long ok2
  have "if \<exists>w\<in>set (context_windows 2000 three_part_context). 0 < score (projr (silent_qa ?q w))
      then \<exists>pre w post.
                context_windows 2000 three_part_context = pre @ w # post
              \<and> (\<forall>x\<in>set pre. score (projr (silent_qa ?q x)) < score (projr (silent_qa ?q w)))
              \<and> (\<forall>x\<in>set post. score (projr (silent_qa ?q x)) \<le> score (projr (silent_qa ?q w)))
              \<and> content (fst (answer_question (qa_manager silent_qa) ?q three_part_context (str_of ''en'') 0))
                  = answer (projr (silent_qa ?q w))
              \<and> confidence (fst (answer_question (qa_manager silent_qa) ?q three_part_context (str_of ''en'') 0))
                  = score (projr (silent_qa ?q w))
      else content (fst (answer_question (qa_manager silent_qa) ?q three_part_context (str_of ''en'') 0))
                = str_of ''No answer found''
              \<and> confidence (fst (answer_question (qa_manager silent_qa) ?q three_part_context (str_of ''en'') 0))
                = 0"
    by blast
  with nopos have b: "content (fst (answer_question (qa_manager silent_qa) ?q three_part_context (str_of ''en'') 0))
                = str_of ''No answer found''
              \<and> confidence (fst (answer_question (qa_manager silent_qa) ?q three_part_context (str_of ''en'') 0))
                = 0"
    by simp
  have c: "content (fst (answer_question (qa_manager first_letter_qa) ?q three_part_context (str_of ''en'') 0))
       = [97]
     \<and> confidence (fst (answer_question (qa_manager first_letter_qa) ?q three_part_context (str_of ''en'') 0))
       = 1 / 2"
    using long
    by (simp add: answer_question_def qa_manager_def answer_body_def windows_three_part
        first_letter_qa_def answer_response_def)
  have bad: "\<exists>w\<in>set (context_windows 2000 three_part_context). isl (raising_qa ?q w)"
    by (auto simp: windows_three_part raising_qa_def)
  from answer_question_windows [of "qa_manager raising_qa" raising_qa three_part_context
      ?q "str_of ''en''" 0] m long bad
  have e: "confidence (fst (answer_question (qa_manager raising_qa) ?q three_part_context (str_of ''en'') 0)) = 0"
    by blast
  from long a b c e show ?thesis
    by (simp add: windows_three_part)
qed

section \<open>extract\_key\_phrases\<close>

text \<open>
  The text \<open>hello\<close> has a single sentence, and the result is not empty: it is the
  one-element list holding the text itself.
\<close>

theorem single_sentence_gives_phrase:
  "length (sentences_of (str_of ''hello'')) = 1
   \<and> extract_key_phrases (Some failing_vectorizer) index_order (str_of ''hello'') 5 = [str_of ''hello'']"
  by (simp add: extract_key_phrases_def sentences_of_def str_of_def is_terminal_def strip_def
      isspace_def slice_def)

lemma length_mean_scores: "length (mean_scores fit n) = length (feature_names fit)"
  by (simp add: mean_scores_def)

lemma comprehension_filter: "[g i. i \<leftarrow> xs, P i] = map g (filter P xs)"
  by (induction xs) simp_all

lemma key_phrases_success:
  assumes two: "2 \<le> length (sentences_of text)"
    and fit: "v (sentences_of text) = Inr fit"
    and k: "1 \<le> top_k"
    and idx: "set (argsort (mean_scores fit (length (sentences_of text))))
                = {..<length (feature_names fit)}"
  shows "extract_key_phrases (Some v) argsort text top_k =
    (let ms = mean_scores fit (length (sentences_of text));
         chosen = rev (drop (length (argsort ms) - nat top_k) (argsort ms))
     in map (\<lambda>i. feature_names fit ! i) (filter (\<lambda>i. ms ! i > 0) chosen))"
proof -
  let ?ms = "mean_scores fit (length (sentences_of text))"
  let ?chosen = "rev (drop (length (argsort ?ms) - nat top_k) (argsort ?ms))"
  have "set ?chosen \<subseteq> set (argsort ?ms)"
    by (simp add: set_drop_subset)
  with idx have "list_all (\<lambda>i. i < length ?ms) ?chosen"
    by (auto simp: list_all_iff length_mean_scores)
  moreover have "[feature_names fit ! i. i \<leftarrow> ?chosen, ?ms ! i > 0]
      = map (\<lambda>i. feature_names fit ! i) (filter (\<lambda>i. ?ms ! i > 0) ?chosen)"
    by (rule comprehension_filter)
  ultimately show ?thesis
    using two fit k by (simp add: extract_key_phrases_def Let_def last_k_def)
qed

lemma top_part_ranked:
  fixes ms :: "real list" and idx :: "nat list" and k :: nat
  assumes sorted: "sorted (map ((!) ms) idx)" and dist: "distinct idx"
    and perm: "set idx = {..<length ms}"
  defines "chosen \<equiv> rev (drop (length idx - k) idx)"
  shows "length chosen \<le> k"
    and "distinct chosen"
    and "sorted (rev (map ((!) ms) chosen))"
    and "\<forall>i<length ms. i \<notin> set chosen \<longrightarrow> (\<forall>j\<in>set chosen. ms ! i \<le> ms ! j)"
proof -
  show "length chosen \<le> k"
    by (simp add: chosen_def)
  show "distinct chosen"
    using dist by (simp add: chosen_def)
  have "sorted (drop (length idx - k) (map ((!) ms) idx))"
    using sorted by (rule sorted_wrt_drop)
  then show "sorted (rev (map ((!) ms) chosen))"
    by (simp add: chosen_def rev_map drop_map)
  have split: "idx = take (length idx - k) idx @ drop (length idx - k) idx"
    by simp
  from sorted have "sorted (map ((!) ms) (take (length idx - k) idx) @ map ((!) ms) (drop (length idx - k) idx))"
    by (simp add: map_append [symmetric] del: map_append)
  then have low: "\<forall>x\<in>set (take (length idx - k) idx). \<forall>y\<in>set (drop (length idx - k) idx). ms ! x \<le> ms ! y"
    by (auto simp: sorted_append)
  show "\<forall>i<length ms. i \<notin> set chosen \<longrightarrow> (\<forall>j\<in>set chosen. ms ! i \<le> ms ! j)"
  proof (intro allI impI ballI)
    fix i j assume i: "i < length ms" "i \<notin> set chosen" and j: "j \<in> set chosen"
    from i(1) perm have "i \<in> set idx" by simp
    with split have "i \<in> set (take (length idx - k) idx) \<or> i \<in> set (drop (length idx - k) idx)"
      by (metis Un_iff set_append)
    with i(2) have "i \<in> set (take (length idx - k) idx)"
      by (simp add: chosen_def)
    moreover from j have "j \<in> set (drop (length idx - k) idx)"
      by (simp add: chosen_def)
    ultimately show "ms ! i \<le> ms ! j"
      using low by blast
  qed
qed


text \<open>
  C9 (as amended). \<open>extract_key_phrases\<close> returns the empty list when scikit-learn
  cannot be imported or the vectorizer raises. With fewer than two non-blank sentences
  it returns the one-element list holding the first 50 characters of the text, and the
  empty list only for the empty text. With at least two sentences, a vectorizer that
  succeeds, \<open>top_k\<close> at least 1 and an \<open>argsort\<close> that returns the feature indices in
  ascending order of mean score, it returns the names of the features among the
  \<open>top_k\<close> of highest mean score (the mean, over the sentences, of the feature's column)
  whose mean score is positive, highest first: the chosen indices are at most \<open>top_k\<close>,
  distinct, in descending order of score, and no index left out has a higher score
  than a chosen one.
\<close>

theorem key_phrases_behaviour:
  "extract_key_phrases None argsort text top_k = []
   \<and> (length (sentences_of text) < 2 \<longrightarrow>
        extract_key_phrases (Some v) argsort text top_k = (if text \<noteq> [] then [take 50 text] else []))
   \<and> (2 \<le> length (sentences_of text) \<and> isl (v (sentences_of text)) \<longrightarrow>
        extract_key_phrases (Some v) argsort text top_k = [])
   \<and> (let ms = mean_scores fit (length (sentences_of text));
           idx = argsort ms;
           chosen = rev (drop (length idx - nat top_k) idx)
       in 2 \<le> length (sentences_of text) \<and> v (sentences_of text) = Inr fit \<and> 1 \<le> top_k
          \<and> distinct idx \<and> set idx = {..<length ms} \<and> sorted (map ((!) ms) idx) \<longrightarrow>
            extract_key_phrases (Some v) argsort text top_k
              = map ((!) (feature_names fit)) (filter (\<lambda>i. ms ! i > 0) chosen)
          \<and> (\<forall>j<length (feature_names fit).
                ms ! j = (\<Sum>i\<leftarrow>[0..<length (sentences_of text)]. tfidf_matrix fit i j)
                           / real (length (sentences_of text)))
          \<and> length chosen \<le> nat top_k \<and> distinct chosen
          \<and> sorted (rev (map ((!) ms) chosen))
          \<and> (\<forall>i<length ms. i \<notin> set chosen \<longrightarrow> (\<forall>j\<in>set chosen. ms ! i \<le> ms ! j)))"
proof (intro conjI)
  show "extract_key_phrases None argsort text top_k = []"
    by (simp add: extract_key_phrases_def)
  show "length (sentences_of text) < 2 \<longrightarrow>
        extract_key_phrases (Some v) argsort text top_k = (if text \<noteq> [] then [take 50 text] else [])"
    by (simp add: extract_key_phrases_def slice_def)
  show "2 \<le> length (sentences_of text) \<and> isl (v (sentences_of text)) \<longrightarrow>
        extract_key_phrases (Some v) argsort text top_k = []"
    by (auto simp: extract_key_phrases_def isl_def)
  let ?ms = "mean_scores fit (length (sentences_of text))"
  let ?idx = "argsort ?ms"
  let ?chosen = "rev (drop (length ?idx - nat top_k) ?idx)"
  have "extract_key_phrases (Some v) argsort text top_k
          = map ((!) (feature_names fit)) (filter (\<lambda>i. ?ms ! i > 0) ?chosen)
      \<and> (\<forall>j<length (feature_names fit).
            ?ms ! j = (\<Sum>i\<leftarrow>[0..<length (sentences_of text)]. tfidf_matrix fit i j)
                       / real (length (sentences_of text)))
      \<and> length ?chosen \<le> nat top_k \<and> distinct ?chosen
      \<and> sorted (rev (map ((!) ?ms) ?chosen))
      \<and> (\<forall>i<length ?ms. i \<notin> set ?chosen \<longrightarrow> (\<forall>j\<in>set ?chosen. ?ms ! i \<le> ?ms ! j))"
    if h: "2 \<le> length (sentences_of text) \<and> v (sentences_of text) = Inr fit \<and> 1 \<le> top_k
          \<and> distinct ?idx \<and> set ?idx = {..<length ?ms} \<and> sorted (map ((!) ?ms) ?idx)"
  proof -
    from h have idx: "set ?idx = {..<length (feature_names fit)}"
      by (simp add: length_mean_scores)
    from h idx have "extract_key_phrases (Some v) argsort text top_k
          = map ((!) (feature_names fit)) (filter (\<lambda>i. ?ms ! i > 0) ?chosen)"
      using key_phrases_success [of "text" v fit top_k argsort] by (simp add: Let_def)
    moreover have "\<forall>j<length (feature_names fit).
            ?ms ! j = (\<Sum>i\<leftarrow>[0..<length (sentences_of text)]. tfidf_matrix fit i j)
                       / real (length (sentences_of text))"
      by (simp add: mean_scores_def)
    moreover from h have "length ?chosen \<le> nat top_k" "distinct ?chosen"
      "sorted (rev (map ((!) ?ms) ?chosen))"
      "\<forall>i<length ?ms. i \<notin> set ?chosen \<longrightarrow> (\<forall>j\<in>set ?chosen. ?ms ! i \<le> ?ms ! j)"
      using top_part_ranked [of ?ms ?idx "nat top_k"] by simp_all
    ultimately show ?thesis by blast
  qed
  then show "let ms = mean_scores fit (length (sentences_of text));
           idx = argsort ms;
           chosen = rev (drop (length idx - nat top_k) idx)
       in 2 \<le> length (sentences_of text) \<and> v (sentences_of text) = Inr fit \<and> 1 \<le> top_k
          \<and> distinct idx \<and> set idx = {..<length ms} \<and> sorted (map ((!) ms) idx) \<longrightarrow>
            extract_key_phrases (Some v) argsort text top_k
              = map ((!) (feature_names fit)) (filter (\<lambda>i. ms ! i > 0) chosen)
          \<and> (\<forall>j<length (feature_names fit).
                ms ! j = (\<Sum>i\<leftarrow>[0..<length (sentences_of text)]. tfidf_matrix fit i j)
                           / real (length (sentences_of text)))
          \<and> length chosen \<le> nat top_k \<and> distinct chosen
          \<and> sorted (rev (map ((!) ms) chosen))
          \<and> (\<forall>i<length ms. i \<notin> set chosen \<longrightarrow> (\<forall>j\<in>set chosen. ms ! i \<le> ms ! j))"
    unfolding Let_def by blast
qed




lemma sentences_cats_dogs:
  "sentences_of (str_of ''Cats purr. Dogs bark!'') = [str_of ''Cats purr'', str_of ''Dogs bark'']"
  by (simp add: sentences_of_def str_of_def is_terminal_def strip_def isspace_def)

theorem key_phrases_behaviour_witness:
  "sentences_of (str_of ''Cats purr. Dogs bark!'') = [str_of ''Cats purr'', str_of ''Dogs bark'']
   \<and> extract_key_phrases (Some sample_vectorizer) index_order (str_of ''Cats purr. Dogs bark!'') 2
       = [str_of ''bark'', str_of ''purr'']
   \<and> extract_key_phrases (Some sample_vectorizer) index_order (str_of ''Cats purr. Dogs bark!'') 9
       = [str_of ''bark'', str_of ''purr'', str_of ''dogs'']
   \<and> extract_key_phrases (Some failing_vectorizer) index_order (str_of ''Cats purr. Dogs bark!'') 2 = []
   \<and> extract_key_phrases (Some failing_vectorizer) index_order (str_of ''Dogs bark'') 2 = [str_of ''Dogs bark'']"
proof -
  let ?t = "str_of ''Cats purr. Dogs bark!''"
  let ?fit = "\<lparr>feature_names = [str_of ''cats'', str_of ''dogs'', str_of ''purr'', str_of ''bark''],
          tfidf_matrix = (\<lambda>i j. real j / 4)\<rparr>"
  have two: "2 \<le> length (sentences_of ?t)"
    by (simp add: sentences_cats_dogs)
  have fit: "sample_vectorizer (sentences_of ?t) = Inr ?fit"
    by (simp add: sample_vectorizer_def)
  have ms: "mean_scores ?fit (length (sentences_of ?t)) = [0, 1 / 4, 1 / 2, 3 / 4]"
    by (simp add: mean_scores_def sentences_cats_dogs upt_rec)
  have idx: "index_order [0, 1 / 4, 1 / 2, 3 / 4] = [0, 1, 2, 3]"
    by (simp add: index_order_def upt_rec)
  have hyp: "distinct [0, 1, 2, 3::nat] \<and> set [0, 1, 2, 3::nat] = {..<length [0, 1 / 4, 1 / 2, 3 / 4 :: real]}
      \<and> sorted (map ((!) [0, 1 / 4, 1 / 2, 3 / 4 :: real]) [0, 1, 2, 3])"
    by (auto simp: lessThan_def)
  have short: "length (sentences_of (str_of ''Dogs bark'')) < 2"
    by (simp add: sentences_of_def str_of_def is_terminal_def strip_def isspace_def)
  have fails: "isl (failing_vectorizer (sentences_of ?t))"
    by (simp add: failing_vectorizer_def)
  from key_phrases_behaviour [of index_order ?t 2 sample_vectorizer ?fit] two fit hyp
  have a: "extract_key_phrases (Some sample_vectorizer) index_order ?t 2 = [str_of ''bark'', str_of ''purr'']"
    unfolding Let_def ms idx by simp
  from key_phrases_behaviour [of index_order ?t 9 sample_vectorizer ?fit] two fit hyp
  have b: "extract_key_phrases (Some sample_vectorizer) index_order ?t 9
      = [str_of ''bark'', str_of ''purr'', str_of ''dogs'']"
    unfolding Let_def ms idx by simp
  from key_phrases_behaviour [of index_order ?t 2 failing_vectorizer] two fails
  have c: "extract_key_phrases (Some failing_vectorizer) index_order ?t 2 = []"
    by blast
  from key_phrases_behaviour [of index_order "str_of ''Dogs bark''" 2 failing_vectorizer] short
  have d: "extract_key_phrases (Some failing_vectorizer) index_order (str_of ''Dogs bark'') 2
      = [str_of ''Dogs bark'']"
    by (simp add: str_of_def)
  from a b c d show ?thesis
    by (simp add: sentences_cats_dogs)
qed

end
